theory Spec2Isabelle
  imports Complex_Main "HOL-Library.Log_Nat"
begin

section \<open>Synthetic renovation-cost dataset generator (dataset_generation.py)\<close>

text \<open>
  The script draws every row from Python's module-level pseudorandom generator and
  computes the itemised costs in floating point. In this development
  \<^item> Python floats are idealised as \<^typ>\<open>real\<close> numbers (exact arithmetic, no rounding
    error, no infinities), with one exception: \<open>random.uniform\<close> rounds each of its
    three operations to the nearest double, as the library documents that rounding
    decides whether the upper end-point can be returned;
  \<^item> the generator of the \<open>random\<close> module is a parameter: a state type \<open>'s\<close> with the two
    primitives every draw of the script goes through, \<open>random()\<close> and \<open>_randbelow(n)\<close>;
  \<^item> every exception the script or the library can raise is a value of type \<open>error\<close>,
    and each drawing function maps a generator state to an error or to a result with the
    next state.
\<close>

subsection \<open>Errors, the generator and the drawing monad\<close>

datatype error =
    KeyError string
  | ValueError string
  | IndexError string
  | ZeroDivisionError string

record 's prng =
  rng_seed :: "int \<Rightarrow> 's"
  rng_random :: "'s \<Rightarrow> real \<times> 's"
  rng_randbelow :: "nat \<Rightarrow> 's \<Rightarrow> nat \<times> 's"

type_synonym ('s, 'a) draw = "'s \<Rightarrow> error + ('a \<times> 's)"

definition ret :: "'a \<Rightarrow> ('s, 'a) draw" where
  "ret x s = Inr (x, s)"

definition raise :: "error \<Rightarrow> ('s, 'a) draw" where
  "raise e s = Inl e"

definition bnd :: "('s, 'a) draw \<Rightarrow> ('a \<Rightarrow> ('s, 'b) draw) \<Rightarrow> ('s, 'b) draw" where
  "bnd m f s = (case m s of Inl e \<Rightarrow> Inl e | Inr (x, s') \<Rightarrow> f x s')"

text \<open>A computation that cannot draw: a dictionary lookup, an index, a division.\<close>

definition lift :: "error + 'a \<Rightarrow> ('s, 'a) draw" where
  "lift r s = (case r of Inl e \<Rightarrow> Inl e | Inr x \<Rightarrow> Inr (x, s))"

text \<open>
  What the library promises of the two primitives: \<open>random()\<close> is in \<open>[0, 1)\<close> and
  \<open>_randbelow(n)\<close> is below \<open>n\<close> for positive \<open>n\<close>.
\<close>

definition prng_ok :: "'s prng \<Rightarrow> bool" where
  "prng_ok G \<longleftrightarrow>
     (\<forall>s. 0 \<le> fst (rng_random G s) \<and> fst (rng_random G s) < 1) \<and>
     (\<forall>n s. 0 < n \<longrightarrow> fst (rng_randbelow G n s) < n)"

subsection \<open>Python built-ins\<close>

text \<open>\<open>round(x)\<close>: to the nearest integer, ties to the even one.\<close>

definition py_round :: "real \<Rightarrow> int" where
  "py_round x =
     (let f = \<lfloor>x\<rfloor>; d = x - of_int f
      in if d < 1 / 2 then f else if 1 / 2 < d then f + 1 else if even f then f else f + 1)"

text \<open>The binary exponent of a positive number: \<open>2 ^ e \<le> x < 2 ^ (e + 1)\<close>.\<close>

definition ilog2 :: "real \<Rightarrow> int" where
  "ilog2 x = (if 1 \<le> x then bitlen \<lfloor>x\<rfloor> - 1 else - bitlen (\<lceil>1 / x\<rceil> - 1))"

text \<open>
  Rounding to the nearest double, ties to the even significand: 53 bits of significand,
  and an exponent that is not bounded (no overflow, no subnormal numbers; the amounts of
  the script are far from both).
\<close>

definition fl_pos :: "real \<Rightarrow> real" where
  "fl_pos x = (let u = 2 powi (ilog2 x - 52) in of_int (py_round (x / u)) * u)"

definition fl :: "real \<Rightarrow> real" where
  "fl x = (if x = 0 then 0 else if 0 < x then fl_pos x else - fl_pos (- x))"

text \<open>\<open>x + y\<close>, \<open>x - y\<close> and \<open>x * y\<close> on doubles.\<close>

definition fadd :: "real \<Rightarrow> real \<Rightarrow> real" where
  "fadd x y = fl (x + y)"

definition fsub :: "real \<Rightarrow> real \<Rightarrow> real" where
  "fsub x y = fl (x - y)"

definition fmul :: "real \<Rightarrow> real \<Rightarrow> real" where
  "fmul x y = fl (x * y)"

text \<open>\<open>round(x, n)\<close>: to \<open>n\<close> decimal places.\<close>

definition round_ndigits :: "real \<Rightarrow> nat \<Rightarrow> real" where
  "round_ndigits x n = of_int (py_round (x * 10 ^ n)) / 10 ^ n"

text \<open>\<open>int(x)\<close> of a float truncates towards zero.\<close>

definition py_int :: "real \<Rightarrow> int" where
  "py_int x = (if 0 \<le> x then \<lfloor>x\<rfloor> else \<lceil>x\<rceil>)"

text \<open>\<open>d[k]\<close> on a dictionary, kept as an association list in insertion order.\<close>

definition lookup :: "(string \<times> 'v) list \<Rightarrow> string \<Rightarrow> error + 'v" where
  "lookup d k = (case map_of d k of None \<Rightarrow> Inl (KeyError k) | Some v \<Rightarrow> Inr v)"

definition keys :: "(string \<times> 'v) list \<Rightarrow> string list" where
  "keys d = map fst d"

definition vals :: "(string \<times> 'v) list \<Rightarrow> 'v list" where
  "vals d = map snd d"

text \<open>\<open>xs[i]\<close> for a non-negative index.\<close>

definition index :: "'a list \<Rightarrow> nat \<Rightarrow> error + 'a" where
  "index xs i = (if i < length xs then Inr (xs ! i) else Inl (IndexError ''list index out of range''))"

text \<open>\<open>x / y\<close> on floats.\<close>

definition py_div :: "real \<Rightarrow> real \<Rightarrow> error + real" where
  "py_div x y = (if y = 0 then Inl (ZeroDivisionError ''float division by zero'') else Inr (x / y))"

subsection \<open>The \<open>random\<close> module, on top of the two primitives\<close>

definition random_random :: "'s prng \<Rightarrow> ('s, real) draw" where
  "random_random G s = Inr (rng_random G s)"

text \<open>
  \<open>random.uniform(a, b)\<close> is \<open>a + (b - a) * random()\<close>, in double arithmetic: the
  difference, the product and the sum are each rounded. (Where the script passes two
  integers, \<open>b - a\<close> is computed on integers; it is exact, and so is \<open>fsub\<close> on them.)
\<close>

definition uniform :: "'s prng \<Rightarrow> real \<Rightarrow> real \<Rightarrow> ('s, real) draw" where
  "uniform G a b = bnd (random_random G) (\<lambda>u. ret (fadd a (fmul (fsub b a) u)))"

text \<open>\<open>random.choice(seq)\<close> is \<open>seq[_randbelow(len(seq))]\<close>, and raises on an empty sequence.\<close>

definition choice :: "'s prng \<Rightarrow> 'a list \<Rightarrow> ('s, 'a) draw" where
  "choice G seq =
     (if length seq = 0 then raise (IndexError ''Cannot choose from an empty sequence'')
      else bnd (\<lambda>s. Inr (rng_randbelow G (length seq) s)) (\<lambda>i. lift (index seq i)))"

text \<open>\<open>itertools.accumulate\<close>: the running sums.\<close>

fun accumulate_from :: "real \<Rightarrow> real list \<Rightarrow> real list" where
  "accumulate_from t [] = []"
| "accumulate_from t (x # xs) = (t + x) # accumulate_from (t + x) xs"

fun accumulate :: "real list \<Rightarrow> real list" where
  "accumulate [] = []"
| "accumulate (x # xs) = x # accumulate_from x xs"

text \<open>\<open>bisect.bisect(a, x, lo, hi)\<close>: the binary search of \<open>bisect_right\<close>.\<close>

function bisect :: "real list \<Rightarrow> real \<Rightarrow> nat \<Rightarrow> nat \<Rightarrow> error + nat" where
  "bisect a x lo hi =
     (if lo < hi then
        (if (lo + hi) div 2 < length a then
           (if x < a ! ((lo + hi) div 2) then bisect a x lo ((lo + hi) div 2)
            else bisect a x ((lo + hi) div 2 + 1) hi)
         else Inl (IndexError ''list index out of range''))
      else Inr lo)"
  by pat_completeness auto
termination
  by (relation "measure (\<lambda>(a, x, lo, hi). hi - lo)") auto

declare bisect.simps [simp del]

text \<open>
  \<open>random.choices(population, weights=weights, k=1)[0]\<close>: the cumulative weights, the
  library's two checks on them, one \<open>random()\<close> scaled by the total, and the bisection
  with \<open>hi = n - 1\<close>. (The library's third check, that the total is finite, cannot fail on
  real numbers.)
\<close>

definition choices :: "'s prng \<Rightarrow> 'a list \<Rightarrow> real list \<Rightarrow> ('s, 'a) draw" where
  "choices G population weights =
     (let n = length population; cum_weights = accumulate weights in
      if length cum_weights \<noteq> n
        then raise (ValueError ''The number of weights does not match the population'')
      else if cum_weights = [] then raise (IndexError ''list index out of range'')
      else if last cum_weights \<le> 0
        then raise (ValueError ''Total of weights must be greater than zero'')
      else bnd (random_random G) (\<lambda>u.
           bnd (lift (bisect cum_weights (u * last cum_weights) 0 (n - 1))) (\<lambda>i.
           lift (index population i))))"

subsection \<open>Configurable parameters and master data\<close>

definition N_ROWS :: int where "N_ROWS = 10000"
definition AS_OF_DATE :: string where "AS_OF_DATE = ''2025-09-07''"
definition INCLUDE_GST :: bool where "INCLUDE_GST = True"
definition GST_RATE :: real where "GST_RATE = 0.18"
definition MATERIAL_PRICE_INDEX :: real where "MATERIAL_PRICE_INDEX = 1.00"

record city_info =
  tier :: string
  multiplier :: real
  labor_day_rate :: "int \<times> int"

definition cities :: "(string \<times> city_info) list" where
  "cities =
    [(''Delhi'',      \<lparr>tier = ''Metro'', multiplier = 1.20, labor_day_rate = (750, 900)\<rparr>),
     (''Mumbai'',     \<lparr>tier = ''Metro'', multiplier = 1.30, labor_day_rate = (800, 950)\<rparr>),
     (''Bangalore'',  \<lparr>tier = ''Metro'', multiplier = 1.25, labor_day_rate = (750, 900)\<rparr>),
     (''Hyderabad'',  \<lparr>tier = ''Metro'', multiplier = 1.15, labor_day_rate = (700, 850)\<rparr>),
     (''Chennai'',    \<lparr>tier = ''Metro'', multiplier = 1.10, labor_day_rate = (650, 800)\<rparr>),
     (''Kolkata'',    \<lparr>tier = ''Metro'', multiplier = 1.00, labor_day_rate = (600, 750)\<rparr>),
     (''Pune'',       \<lparr>tier = ''Metro'', multiplier = 1.20, labor_day_rate = (700, 850)\<rparr>),
     (''Ahmedabad'',  \<lparr>tier = ''Metro'', multiplier = 1.05, labor_day_rate = (600, 750)\<rparr>),
     (''Lucknow'',    \<lparr>tier = ''Tier-2'', multiplier = 0.92, labor_day_rate = (500, 650)\<rparr>),
     (''Jaipur'',     \<lparr>tier = ''Tier-2'', multiplier = 0.95, labor_day_rate = (550, 700)\<rparr>),
     (''Indore'',     \<lparr>tier = ''Tier-2'', multiplier = 0.96, labor_day_rate = (550, 700)\<rparr>),
     (''Surat'',      \<lparr>tier = ''Tier-2'', multiplier = 1.00, labor_day_rate = (550, 700)\<rparr>),
     (''Nagpur'',     \<lparr>tier = ''Tier-2'', multiplier = 0.95, labor_day_rate = (520, 680)\<rparr>),
     (''Vadodara'',   \<lparr>tier = ''Tier-2'', multiplier = 0.98, labor_day_rate = (550, 700)\<rparr>),
     (''Coimbatore'', \<lparr>tier = ''Tier-2'', multiplier = 0.95, labor_day_rate = (520, 660)\<rparr>),
     (''Bhopal'',     \<lparr>tier = ''Tier-2'', multiplier = 0.93, labor_day_rate = (500, 640)\<rparr>),
     (''Chandigarh'', \<lparr>tier = ''Tier-2'', multiplier = 1.02, labor_day_rate = (600, 750)\<rparr>),
     (''Patna'',      \<lparr>tier = ''Tier-3'', multiplier = 0.88, labor_day_rate = (450, 600)\<rparr>),
     (''Ranchi'',     \<lparr>tier = ''Tier-3'', multiplier = 0.90, labor_day_rate = (480, 620)\<rparr>),
     (''Guwahati'',   \<lparr>tier = ''Tier-3'', multiplier = 0.92, labor_day_rate = (500, 640)\<rparr>),
     (''Kanpur'',     \<lparr>tier = ''Tier-3'', multiplier = 0.90, labor_day_rate = (480, 620)\<rparr>),
     (''Varanasi'',   \<lparr>tier = ''Tier-3'', multiplier = 0.90, labor_day_rate = (480, 620)\<rparr>),
     (''Mysuru'',     \<lparr>tier = ''Tier-3'', multiplier = 0.94, labor_day_rate = (520, 660)\<rparr>)]"

definition city_names :: "string list" where
  "city_names = keys cities"

definition room_types :: "string list" where
  "room_types =
     [''Bedroom'', ''Living Room'', ''Kitchen'', ''Bathroom'', ''Dining'', ''Study'', ''Kids Room'']"

record level_info =
  labor_overhead :: "real \<times> real"

definition renovation_levels :: "(string \<times> level_info) list" where
  "renovation_levels =
    [(''Basic'',  \<lparr>labor_overhead = (0.10, 0.15)\<rparr>),
     (''Mid'',    \<lparr>labor_overhead = (0.15, 0.25)\<rparr>),
     (''Luxury'', \<lparr>labor_overhead = (0.25, 0.35)\<rparr>)]"

definition quality_tiers :: "(string \<times> real) list" where
  "quality_tiers =
    [(''Economy'', 0.90), (''Standard'', 1.00), (''Premium'', 1.20), (''Luxury'', 1.40)]"

definition painting_psf :: "real \<times> real" where
  "painting_psf = (18, 35)"

definition flooring_catalog :: "(string \<times> (real \<times> real)) list" where
  "flooring_catalog =
    [(''Vitrified_Tile'', (90, 200)),
     (''Ceramic_Tile'', (80, 160)),
     (''Wood_Laminate'', (140, 260)),
     (''Engineered_Wood'', (220, 380)),
     (''Marble'', (350, 900)),
     (''Granite'', (220, 450)),
     (''Epoxy'', (60, 160))]"

definition ceiling_catalog :: "(string \<times> (real \<times> real)) list" where
  "ceiling_catalog = [(''POP'', (90, 160)), (''Gypsum'', (120, 220)), (''Grid'', (100, 180))]"

definition electrical_psf :: "real \<times> real" where
  "electrical_psf = (70, 160)"

definition plumbing_per_bath :: "real \<times> real" where
  "plumbing_per_bath = (40000, 95000)"

definition plumbing_per_kitchen :: "real \<times> real" where
  "plumbing_per_kitchen = (25000, 60000)"

definition kitchen_packages :: "(string \<times> (real \<times> real)) list" where
  "kitchen_packages =
    [(''Basic_L'', (120000, 250000)),
     (''Standard_L'', (180000, 350000)),
     (''Premium_U'', (300000, 600000)),
     (''Luxury_Island'', (500000, 1200000))]"

definition bathroom_packages :: "(string \<times> (real \<times> real)) list" where
  "bathroom_packages =
    [(''Basic'', (70000, 130000)), (''Standard'', (120000, 220000)), (''Premium'', (200000, 400000))]"

definition furniture_room :: "(string \<times> (real \<times> real)) list" where
  "furniture_room =
    [(''None'', (0, 0)),
     (''Basic'', (30000, 80000)),
     (''Standard'', (80000, 180000)),
     (''Premium'', (180000, 500000))]"

definition productivity :: "(string \<times> (real \<times> real)) list" where
  "productivity =
    [(''painting_sqft_per_day'', (180, 280)),
     (''flooring_sqft_per_day'', (90, 160)),
     (''ceiling_sqft_per_day'', (120, 180)),
     (''electrical_sqft_per_day'', (150, 240))]"

subsection \<open>Helper functions\<close>

definition rand_range :: "'s prng \<Rightarrow> real \<Rightarrow> real \<Rightarrow> ('s, real) draw" where
  "rand_range G a b = uniform G a b"


definition choose_quality :: "'s prng \<Rightarrow> ('s, string) draw" where
  "choose_quality G = choices G (keys quality_tiers) [0.25, 0.45, 0.22, 0.08]"

definition choose_flooring_type :: "'s prng \<Rightarrow> string \<Rightarrow> ('s, string) draw" where
  "choose_flooring_type G room_type =
     (if room_type \<in> set [''Kitchen'', ''Bathroom'']
      then choices G [''Ceramic_Tile'', ''Vitrified_Tile'', ''Granite''] [0.45, 0.40, 0.15]
      else choices G (keys flooring_catalog) [0.25, 0.35, 0.10, 0.08, 0.10, 0.07, 0.05])"

definition choose_ceiling_type :: "'s prng \<Rightarrow> ('s, string) draw" where
  "choose_ceiling_type G = choice G (keys ceiling_catalog)"

definition choose_furniture_level :: "'s prng \<Rightarrow> string \<Rightarrow> ('s, string) draw" where
  "choose_furniture_level G room_type =
     (if room_type \<in> set [''Kitchen'', ''Bathroom''] then ret ''None''
      else choices G [''None'', ''Basic'', ''Standard'', ''Premium''] [0.35, 0.35, 0.22, 0.08])"

definition kitchen_package_by_level :: "'s prng \<Rightarrow> string \<Rightarrow> ('s, string) draw" where
  "kitchen_package_by_level G renov_level =
     (if renov_level = ''Basic'' then ret ''Basic_L''
      else if renov_level = ''Mid'' then choice G [''Basic_L'', ''Standard_L'']
      else choice G [''Standard_L'', ''Premium_U'', ''Luxury_Island''])"

definition bathroom_package_by_level :: "'s prng \<Rightarrow> string \<Rightarrow> ('s, string) draw" where
  "bathroom_package_by_level G renov_level =
     (if renov_level = ''Basic'' then ret ''Basic''
      else if renov_level = ''Mid'' then choice G [''Basic'', ''Standard'']
      else choice G [''Standard'', ''Premium''])"

definition psf_cost :: "'s prng \<Rightarrow> real \<times> real \<Rightarrow> real \<Rightarrow> real \<Rightarrow> ('s, real) draw" where
  "psf_cost G base_rng quality_factor city_mult =
     bnd (rand_range G (fst base_rng) (snd base_rng)) (\<lambda>base.
     ret (base * quality_factor * city_mult * MATERIAL_PRICE_INDEX))"

definition unit_cost :: "'s prng \<Rightarrow> real \<times> real \<Rightarrow> real \<Rightarrow> real \<Rightarrow> ('s, real) draw" where
  "unit_cost G base_rng quality_factor city_mult =
     bnd (rand_range G (fst base_rng) (snd base_rng)) (\<lambda>base.
     ret (base * quality_factor * city_mult * MATERIAL_PRICE_INDEX))"

text \<open>
  The area is an integer in the script and is divided by a float; the division raises on a
  zero divisor.
\<close>

definition labor_component_cost :: "'s prng \<Rightarrow> int \<Rightarrow> city_info \<Rightarrow> string \<Rightarrow> ('s, real) draw" where
  "labor_component_cost G area_sqft city_info category =
     bnd (rand_range G (of_int (fst (labor_day_rate city_info)))
                       (of_int (snd (labor_day_rate city_info)))) (\<lambda>day_rate.
     bnd (if category = ''painting'' then
            bnd (lift (lookup productivity ''painting_sqft_per_day'')) (\<lambda>r.
            rand_range G (fst r) (snd r))
          else if category = ''flooring'' then
            bnd (lift (lookup productivity ''flooring_sqft_per_day'')) (\<lambda>r.
            rand_range G (fst r) (snd r))
          else if category = ''ceiling'' then
            bnd (lift (lookup productivity ''ceiling_sqft_per_day'')) (\<lambda>r.
            rand_range G (fst r) (snd r))
          else if category = ''electrical'' then
            bnd (lift (lookup productivity ''electrical_sqft_per_day'')) (\<lambda>r.
            rand_range G (fst r) (snd r))
          else ret 150.0) (\<lambda>sqft_per_day.
     bnd (lift (py_div (of_int area_sqft) sqft_per_day)) (\<lambda>q.
     let days = max 1.0 q in
     ret (day_rate * days))))"

subsection \<open>Row generator\<close>

text \<open>
  The local variables of \<open>generate_row\<close> that its return statement reads, and the
  subtotals they were computed from. The city's tier is read off \<open>cinfo\<close>.
\<close>

record locals =
  city :: string
  cinfo :: city_info
  city_mult :: real
  room_type :: string
  area :: int
  renov_level :: string
  labor_overhead_pct :: real
  paint_quality :: string
  floor_quality :: string
  ceiling_quality :: string
  painting_material_cost :: real
  painting_labor_cost :: real
  floor_type :: string
  flooring_material_cost :: real
  flooring_labor_cost :: real
  has_ceiling :: bool
  ceiling_type :: string
  ceiling_area :: int
  ceiling_material_cost :: real
  ceiling_labor_cost :: real
  has_electrical :: bool
  electrical_material_cost :: real
  electrical_labor_cost :: real
  kitchen_pkg_name :: string
  kitchen_pkg_cost :: real
  bath_pkg_name :: string
  bath_pkg_cost :: real
  plumbing_cost :: real
  furniture_level :: string
  furniture_cost :: real
  material_subtotal :: real
  wastage_pct :: real
  wastage_cost :: real
  labor_subtotal :: real
  contractor_overhead :: real
  subtotal_pre_tax :: real
  gst_amount :: real
  grand_total :: real
  total_psf :: real

text \<open>The body of \<open>generate_row\<close> down to its return statement, draw by draw.\<close>

definition generate_row_locals :: "'s prng \<Rightarrow> ('s, locals) draw" where
  "generate_row_locals G =
     bnd (choice G city_names) (\<lambda>city.
     bnd (lift (lookup cities city)) (\<lambda>cinfo.
     let city_mult = multiplier cinfo in
     bnd (choice G room_types) (\<lambda>room_type.
     bnd (rand_range G 70 550) (\<lambda>a.
     let area = py_int a in
     bnd (choice G (keys renovation_levels)) (\<lambda>renov_level.
     bnd (lift (lookup renovation_levels renov_level)) (\<lambda>linfo.
     bnd (rand_range G (fst (labor_overhead linfo)) (snd (labor_overhead linfo))) (\<lambda>lo.
     let labor_overhead_pct = round_ndigits lo 3 in
     bnd (choose_quality G) (\<lambda>paint_quality.
     bnd (choose_quality G) (\<lambda>floor_quality.
     bnd (choose_quality G) (\<lambda>ceiling_quality.
     bnd (lift (lookup quality_tiers paint_quality)) (\<lambda>paint_q.
     bnd (psf_cost G painting_psf paint_q city_mult) (\<lambda>painting_rate_psf.
     let painting_material_cost = painting_rate_psf * of_int area in
     bnd (labor_component_cost G area cinfo ''painting'') (\<lambda>painting_labor_cost.
     bnd (choose_flooring_type G room_type) (\<lambda>floor_type.
     bnd (lift (lookup flooring_catalog floor_type)) (\<lambda>floor_rng.
     bnd (lift (lookup quality_tiers floor_quality)) (\<lambda>floor_q.
     bnd (psf_cost G floor_rng floor_q city_mult) (\<lambda>floor_rate_psf.
     let flooring_material_cost = floor_rate_psf * of_int area in
     bnd (labor_component_cost G area cinfo ''flooring'') (\<lambda>flooring_labor_cost.
     bnd (if room_type \<noteq> ''Bathroom''
          then bnd (random_random G) (\<lambda>u. ret (u < 0.65)) else ret False) (\<lambda>has_ceiling.
     bnd (if has_ceiling then choose_ceiling_type G else ret ''None'') (\<lambda>ceiling_type.
     bnd (if has_ceiling
          then bnd (rand_range G 0.8 1.05) (\<lambda>f. ret (py_int (of_int area * f)))
          else ret 0) (\<lambda>ceiling_area.
     bnd (if has_ceiling
          then bnd (lift (lookup ceiling_catalog ceiling_type)) (\<lambda>ceiling_rng.
               bnd (lift (lookup quality_tiers ceiling_quality)) (\<lambda>ceiling_q.
               psf_cost G ceiling_rng ceiling_q city_mult))
          else ret 0.0) (\<lambda>ceiling_rate_psf.
     let ceiling_material_cost = ceiling_rate_psf * of_int ceiling_area in
     bnd (if has_ceiling then labor_component_cost G ceiling_area cinfo ''ceiling''
          else ret 0.0) (\<lambda>ceiling_labor_cost.
     bnd (random_random G) (\<lambda>u.
     bnd (lift (lookup [(''Basic'', 0.4), (''Mid'', 0.65), (''Luxury'', 0.9)] renov_level)) (\<lambda>p.
     let has_electrical = (u < p) in
     bnd (if has_electrical then psf_cost G electrical_psf 1.0 city_mult
          else ret 0.0) (\<lambda>electrical_rate_psf.
     let electrical_material_cost = electrical_rate_psf * of_int area in
     bnd (if has_electrical then labor_component_cost G area cinfo ''electrical''
          else ret 0.0) (\<lambda>electrical_labor_cost.
     bnd (if room_type = ''Kitchen''
          then bnd (kitchen_package_by_level G renov_level) (\<lambda>kname.
               bnd (lift (lookup kitchen_packages kname)) (\<lambda>krng.
               bnd (choose_quality G) (\<lambda>kquality.
               bnd (lift (lookup quality_tiers kquality)) (\<lambda>kq.
               bnd (unit_cost G krng kq city_mult) (\<lambda>kcost.
               ret (kname, kcost))))))
          else ret (''None'', 0.0)) (\<lambda>(kitchen_pkg_name, kitchen_pkg_cost).
     bnd (if room_type = ''Bathroom''
          then bnd (bathroom_package_by_level G renov_level) (\<lambda>bname.
               bnd (lift (lookup bathroom_packages bname)) (\<lambda>brng.
               bnd (choose_quality G) (\<lambda>bquality.
               bnd (lift (lookup quality_tiers bquality)) (\<lambda>bq.
               bnd (unit_cost G brng bq city_mult) (\<lambda>bcost.
               ret (bname, bcost))))))
          else ret (''None'', 0.0)) (\<lambda>(bath_pkg_name, bath_pkg_cost).
     bnd (if room_type = ''Kitchen''
          then bnd (unit_cost G plumbing_per_kitchen 1.0 city_mult) (\<lambda>c. ret (0.0 + c))
          else ret 0.0) (\<lambda>plumbing_cost1.
     bnd (if room_type = ''Bathroom''
          then bnd (unit_cost G plumbing_per_bath 1.0 city_mult) (\<lambda>c. ret (plumbing_cost1 + c))
          else ret plumbing_cost1) (\<lambda>plumbing_cost.
     bnd (choose_furniture_level G room_type) (\<lambda>furniture_level.
     bnd (if furniture_level \<noteq> ''None''
          then bnd (lift (lookup furniture_room furniture_level)) (\<lambda>frng.
               unit_cost G frng 1.0 city_mult)
          else ret 0.0) (\<lambda>furniture_cost.
     let material_subtotal =
           painting_material_cost + flooring_material_cost + ceiling_material_cost +
           electrical_material_cost + kitchen_pkg_cost + bath_pkg_cost + plumbing_cost +
           furniture_cost in
     bnd (rand_range G 0.05 0.10) (\<lambda>wastage_pct.
     let wastage_cost = material_subtotal * wastage_pct;
         labor_subtotal =
           painting_labor_cost + flooring_labor_cost + ceiling_labor_cost +
           electrical_labor_cost;
         contractor_overhead = (material_subtotal + labor_subtotal) * labor_overhead_pct;
         subtotal_pre_tax =
           material_subtotal + wastage_cost + labor_subtotal + contractor_overhead;
         gst_amount = (if INCLUDE_GST then subtotal_pre_tax * GST_RATE else 0.0);
         grand_total = subtotal_pre_tax + gst_amount;
         total_psf = grand_total / of_int (max 1 area)
     in ret \<lparr>city = city, cinfo = cinfo, city_mult = city_mult, room_type = room_type,
             area = area, renov_level = renov_level, labor_overhead_pct = labor_overhead_pct,
             paint_quality = paint_quality, floor_quality = floor_quality,
             ceiling_quality = ceiling_quality,
             painting_material_cost = painting_material_cost,
             painting_labor_cost = painting_labor_cost, floor_type = floor_type,
             flooring_material_cost = flooring_material_cost,
             flooring_labor_cost = flooring_labor_cost, has_ceiling = has_ceiling,
             ceiling_type = ceiling_type, ceiling_area = ceiling_area,
             ceiling_material_cost = ceiling_material_cost,
             ceiling_labor_cost = ceiling_labor_cost, has_electrical = has_electrical,
             electrical_material_cost = electrical_material_cost,
             electrical_labor_cost = electrical_labor_cost,
             kitchen_pkg_name = kitchen_pkg_name, kitchen_pkg_cost = kitchen_pkg_cost,
             bath_pkg_name = bath_pkg_name, bath_pkg_cost = bath_pkg_cost,
             plumbing_cost = plumbing_cost, furniture_level = furniture_level,
             furniture_cost = furniture_cost, material_subtotal = material_subtotal,
             wastage_pct = wastage_pct, wastage_cost = wastage_cost,
             labor_subtotal = labor_subtotal, contractor_overhead = contractor_overhead,
             subtotal_pre_tax = subtotal_pre_tax, gst_amount = gst_amount,
             grand_total = grand_total, total_psf = total_psf\<rparr>
     ))))))))))))))))))))))))))))))))))"

text \<open>The emitted record: the dictionary returned by \<open>generate_row\<close>.\<close>

record row =
  Row_ID :: int
  As_Of_Date :: string
  Material_Price_Index :: real
  City :: string
  City_Tier :: string
  City_Multiplier :: real
  Labor_Day_Rate_Min :: int
  Labor_Day_Rate_Max :: int
  Room_Type :: string
  Area_Sqft :: int
  Renovation_Level :: string
  Paint_Quality :: string
  Floor_Type :: string
  Floor_Quality :: string
  Ceiling_Type :: string
  Ceiling_Quality :: string
  Has_Electrical :: bool
  Furniture_Level :: string
  Kitchen_Package :: string
  Bathroom_Package :: string
  Painting_Material_Cost :: int
  Painting_Labor_Cost :: int
  Flooring_Material_Cost :: int
  Flooring_Labor_Cost :: int
  Ceiling_Material_Cost :: int
  Ceiling_Labor_Cost :: int
  Electrical_Material_Cost :: int
  Electrical_Labor_Cost :: int
  Kitchen_Package_Cost :: int
  Bathroom_Package_Cost :: int
  Plumbing_Cost :: int
  Furniture_Cost :: int
  Wastage_Sundries_Cost :: int
  Contractor_Overhead_Cost :: int
  GST_Amount :: int
  Grand_Total :: int
  Total_Cost_per_Sqft :: real

text \<open>
  The return statement. It looks the city up in \<open>cities\<close> twice more, for the two
  bounds of the labour day rate (\<open>c1\<close> and \<open>c2\<close> below), and builds the dictionary.
\<close>

definition row_dict :: "int \<Rightarrow> locals \<Rightarrow> city_info \<Rightarrow> city_info \<Rightarrow> row" where
  "row_dict idx l c1 c2 =
     \<lparr>Row_ID = idx,
      As_Of_Date = AS_OF_DATE,
      Material_Price_Index = MATERIAL_PRICE_INDEX,
      City = city l,
      City_Tier = tier (cinfo l),
      City_Multiplier = city_mult l,
      Labor_Day_Rate_Min = fst (labor_day_rate c1),
      Labor_Day_Rate_Max = snd (labor_day_rate c2),
      Room_Type = room_type l,
      Area_Sqft = area l,
      Renovation_Level = renov_level l,
      Paint_Quality = paint_quality l,
      Floor_Type = floor_type l,
      Floor_Quality = floor_quality l,
      Ceiling_Type = ceiling_type l,
      Ceiling_Quality = (if has_ceiling l then ceiling_quality l else ''None''),
      Has_Electrical = has_electrical l,
      Furniture_Level = furniture_level l,
      Kitchen_Package = kitchen_pkg_name l,
      Bathroom_Package = bath_pkg_name l,
      Painting_Material_Cost = py_round (painting_material_cost l),
      Painting_Labor_Cost = py_round (painting_labor_cost l),
      Flooring_Material_Cost = py_round (flooring_material_cost l),
      Flooring_Labor_Cost = py_round (flooring_labor_cost l),
      Ceiling_Material_Cost = py_round (ceiling_material_cost l),
      Ceiling_Labor_Cost = py_round (ceiling_labor_cost l),
      Electrical_Material_Cost = py_round (electrical_material_cost l),
      Electrical_Labor_Cost = py_round (electrical_labor_cost l),
      Kitchen_Package_Cost = py_round (kitchen_pkg_cost l),
      Bathroom_Package_Cost = py_round (bath_pkg_cost l),
      Plumbing_Cost = py_round (plumbing_cost l),
      Furniture_Cost = py_round (furniture_cost l),
      Wastage_Sundries_Cost = py_round (wastage_cost l),
      Contractor_Overhead_Cost = py_round (contractor_overhead l),
      GST_Amount = py_round (gst_amount l),
      Grand_Total = py_round (grand_total l),
      Total_Cost_per_Sqft = round_ndigits (total_psf l) 2\<rparr>"

definition emit_row :: "int \<Rightarrow> locals \<Rightarrow> ('s, row) draw" where
  "emit_row idx l =
     bnd (lift (lookup cities (city l))) (\<lambda>c1.
     bnd (lift (lookup cities (city l))) (\<lambda>c2.
     ret (row_dict idx l c1 c2)))"

definition generate_row :: "'s prng \<Rightarrow> int \<Rightarrow> ('s, row) draw" where
  "generate_row G idx = bnd (generate_row_locals G) (emit_row idx)"

subsection \<open>Dataset assembly\<close>

text \<open>\<open>range(a, b)\<close> on integers.\<close>

definition py_range :: "int \<Rightarrow> int \<Rightarrow> int list" where
  "py_range a b = [a..b - 1]"

text \<open>The list comprehension \<open>[generate_row(i) for i in ...]\<close>: one row after the other.\<close>

fun generate_rows :: "'s prng \<Rightarrow> int list \<Rightarrow> ('s, row list) draw" where
  "generate_rows G [] = ret []"
| "generate_rows G (i # is) =
     bnd (generate_row G i) (\<lambda>r.
     bnd (generate_rows G is) (\<lambda>rs.
     ret (r # rs)))"

text \<open>The module's top level for a row count \<open>n\<close>: seed once, then build \<open>rows\<close>.\<close>

definition rows :: "'s prng \<Rightarrow> int \<Rightarrow> ('s, row list) draw" where
  "rows G n = generate_rows G (py_range 1 (n + 1))"

definition run :: "'s prng \<Rightarrow> int \<Rightarrow> int \<Rightarrow> error + row list" where
  "run G seed n = (case rows G n (rng_seed G seed) of Inl e \<Rightarrow> Inl e | Inr (rs, s) \<Rightarrow> Inr rs)"

subsection \<open>A generator that replays scripted draws\<close>

text \<open>
  For running the model on concrete inputs: the state is the list of values \<open>random()\<close>
  will return and the list of values \<open>_randbelow\<close> will return (reduced below \<open>n\<close>);
  an exhausted list gives 0.
\<close>

definition scripted :: "(real list \<times> nat list) prng" where
  "scripted =
     \<lparr>rng_seed = (\<lambda>_. ([], [])),
      rng_random = (\<lambda>(us, ks). case us of [] \<Rightarrow> (0, (us, ks))
                      | u # us' \<Rightarrow> ((if 0 \<le> u \<and> u < 1 then u else 0), (us', ks))),
      rng_randbelow = (\<lambda>n (us, ks). case ks of [] \<Rightarrow> (0, (us, ks))
                      | k # ks' \<Rightarrow> (k mod n, (us, ks')))\<rparr>"


subsection \<open>Specification predicates\<close>

text \<open>A drawing computation that never fails and whose result satisfies \<open>Q\<close>.\<close>

definition succeeds :: "('s, 'a) draw \<Rightarrow> ('a \<Rightarrow> bool) \<Rightarrow> bool" where
  "succeeds m Q \<longleftrightarrow> (\<forall>s. \<exists>x s'. m s = Inr (x, s') \<and> Q x)"

text \<open>A well-formed range of the tables: \<open>0 \<le> min \<le> max\<close>.\<close>

definition range_ok :: "real \<times> real \<Rightarrow> bool" where
  "range_ok r \<longleftrightarrow> 0 \<le> fst r \<and> fst r \<le> snd r"



text \<open>A city entry with a positive multiplier and a well-formed labour day-rate range.\<close>

definition city_ok :: "city_info \<Rightarrow> bool" where
  "city_ok c \<longleftrightarrow> 0 < multiplier c \<and> 0 \<le> fst (labor_day_rate c) \<and>
     fst (labor_day_rate c) \<le> snd (labor_day_rate c)"

text \<open>
  What holds of the local variables of \<open>generate_row\<close> at its return statement.
\<close>

definition locals_ok :: "locals \<Rightarrow> bool" where
  "locals_ok l \<longleftrightarrow>
     lookup cities (city l) = Inr (cinfo l) \<and>
     city_mult l = multiplier (cinfo l) \<and>
     70 \<le> area l \<and> area l \<le> 550 \<and>
     0 \<le> labor_overhead_pct l \<and>
     0 \<le> wastage_pct l \<and>
     0 \<le> painting_material_cost l \<and> 0 \<le> painting_labor_cost l \<and>
     0 \<le> flooring_material_cost l \<and> 0 \<le> flooring_labor_cost l \<and>
     0 \<le> ceiling_material_cost l \<and> 0 \<le> ceiling_labor_cost l \<and>
     0 \<le> electrical_material_cost l \<and> 0 \<le> electrical_labor_cost l \<and>
     0 \<le> kitchen_pkg_cost l \<and> 0 \<le> bath_pkg_cost l \<and>
     0 \<le> plumbing_cost l \<and> 0 \<le> furniture_cost l \<and>
     (room_type l \<noteq> ''Kitchen'' \<longrightarrow> kitchen_pkg_name l = ''None'' \<and> kitchen_pkg_cost l = 0) \<and>
     (room_type l \<noteq> ''Bathroom'' \<longrightarrow> bath_pkg_name l = ''None'' \<and> bath_pkg_cost l = 0) \<and>
     (room_type l = ''Bathroom'' \<longrightarrow> \<not> has_ceiling l) \<and>
     (\<not> has_ceiling l \<longrightarrow>
        ceiling_type l = ''None'' \<and> ceiling_material_cost l = 0 \<and> ceiling_labor_cost l = 0) \<and>
     material_subtotal l =
       painting_material_cost l + flooring_material_cost l + ceiling_material_cost l +
       electrical_material_cost l + kitchen_pkg_cost l + bath_pkg_cost l + plumbing_cost l +
       furniture_cost l \<and>
     wastage_cost l = material_subtotal l * wastage_pct l \<and>
     labor_subtotal l =
       painting_labor_cost l + flooring_labor_cost l + ceiling_labor_cost l +
       electrical_labor_cost l \<and>
     contractor_overhead l = (material_subtotal l + labor_subtotal l) * labor_overhead_pct l \<and>
     subtotal_pre_tax l =
       material_subtotal l + wastage_cost l + labor_subtotal l + contractor_overhead l \<and>
     gst_amount l = (if INCLUDE_GST then subtotal_pre_tax l * GST_RATE else 0) \<and>
     grand_total l = subtotal_pre_tax l + gst_amount l \<and>
     total_psf l = grand_total l / of_int (max 1 (area l))"

subsection \<open>Two concrete rows\<close>

text \<open>
  The row the generator returns for index 1 when every draw is 0 (Delhi, Bedroom), and
  the row it returns when the second \<open>_randbelow\<close> is 3 instead (Delhi, Bathroom).
\<close>

definition bedroom_row :: row where
  "bedroom_row =
     \<lparr>Row_ID = 1, As_Of_Date = ''2025-09-07'', Material_Price_Index = 1,
      City = ''Delhi'', City_Tier = ''Metro'', City_Multiplier = 1.2,
      Labor_Day_Rate_Min = 750, Labor_Day_Rate_Max = 900,
      Room_Type = ''Bedroom'', Area_Sqft = 70,
      Renovation_Level = ''Basic'', Paint_Quality = ''Economy'',
      Floor_Type = ''Vitrified_Tile'', Floor_Quality = ''Economy'',
      Ceiling_Type = ''POP'', Ceiling_Quality = ''Economy'',
      Has_Electrical = True, Furniture_Level = ''None'',
      Kitchen_Package = ''None'', Bathroom_Package = ''None'',
      Painting_Material_Cost = 1361, Painting_Labor_Cost = 750,
      Flooring_Material_Cost = 6804, Flooring_Labor_Cost = 750,
      Ceiling_Material_Cost = 5443, Ceiling_Labor_Cost = 750,
      Electrical_Material_Cost = 5880, Electrical_Labor_Cost = 750,
      Kitchen_Package_Cost = 0, Bathroom_Package_Cost = 0,
      Plumbing_Cost = 0, Furniture_Cost = 0, Wastage_Sundries_Cost = 974,
      Contractor_Overhead_Cost = 2249, GST_Amount = 4628,
      Grand_Total = 30339, Total_Cost_per_Sqft = 433.42\<rparr>"

definition bathroom_row :: row where
  "bathroom_row =
     \<lparr>Row_ID = 1, As_Of_Date = ''2025-09-07'', Material_Price_Index = 1,
      City = ''Delhi'', City_Tier = ''Metro'', City_Multiplier = 1.2,
      Labor_Day_Rate_Min = 750, Labor_Day_Rate_Max = 900,
      Room_Type = ''Bathroom'', Area_Sqft = 70,
      Renovation_Level = ''Basic'', Paint_Quality = ''Economy'',
      Floor_Type = ''Ceramic_Tile'', Floor_Quality = ''Economy'',
      Ceiling_Type = ''None'', Ceiling_Quality = ''None'',
      Has_Electrical = True, Furniture_Level = ''None'',
      Kitchen_Package = ''None'', Bathroom_Package = ''Basic'',
      Painting_Material_Cost = 1361, Painting_Labor_Cost = 750,
      Flooring_Material_Cost = 6048, Flooring_Labor_Cost = 750,
      Ceiling_Material_Cost = 0, Ceiling_Labor_Cost = 0,
      Electrical_Material_Cost = 5880, Electrical_Labor_Cost = 750,
      Kitchen_Package_Cost = 0, Bathroom_Package_Cost = 75600,
      Plumbing_Cost = 48000, Furniture_Cost = 0,
      Wastage_Sundries_Cost = 6844, Contractor_Overhead_Cost = 13914,
      GST_Amount = 28781, Grand_Total = 188679,
      Total_Cost_per_Sqft = 2695.41\<rparr>"

section \<open>Properties\<close>

subsection \<open>Rounding to the nearest double\<close>

lemma ilog2_bounds:
  assumes "0 < x"
  shows "2 powi ilog2 x \<le> x" and "x < 2 powi (ilog2 x + 1)"
proof -
  show "2 powi ilog2 x \<le> x"
  proof (cases "1 \<le> x")
    case True
    then have n: "0 < \<lfloor>x\<rfloor>" by simp
    from bitlen_bounds [OF n] have "2 ^ nat (bitlen \<lfloor>x\<rfloor> - 1) \<le> \<lfloor>x\<rfloor>" by simp
    then have "real_of_int (2 ^ nat (bitlen \<lfloor>x\<rfloor> - 1)) \<le> real_of_int \<lfloor>x\<rfloor>"
      by (simp only: of_int_le_iff)
    also have "\<dots> \<le> x" by simp
    finally have "2 ^ nat (bitlen \<lfloor>x\<rfloor> - 1) \<le> x" by simp
    moreover from n have "1 \<le> bitlen \<lfloor>x\<rfloor>" by (simp add: bitlen_alt_def)
    ultimately show ?thesis using True by (simp add: ilog2_def power_int_def)
  next
    case False
    let ?k = "\<lceil>1 / x\<rceil>"
    let ?j = "bitlen (?k - 1)"
    from False assms have "1 < 1 / x" by simp
    then have k: "0 < ?k - 1" by (simp add: less_ceiling_iff)
    from bitlen_bounds [OF k] have "?k - 1 < 2 ^ nat ?j" by simp
    then have "?k \<le> 2 ^ nat ?j" by simp
    then have "real_of_int ?k \<le> real_of_int (2 ^ nat ?j)" by (simp only: of_int_le_iff)
    with le_of_int_ceiling [of "1 / x"] have "1 / x \<le> real_of_int (2 ^ nat ?j)"
      by (rule order_trans)
    then have "1 / x \<le> 2 ^ nat ?j" by simp
    with assms have "1 / 2 ^ nat ?j \<le> x" by (simp add: field_simps)
    moreover from k have "1 \<le> ?j" by (simp add: bitlen_alt_def)
    ultimately show ?thesis using False
      by (simp add: ilog2_def power_int_def inverse_eq_divide power_one_over)
  qed
  show "x < 2 powi (ilog2 x + 1)"
  proof (cases "1 \<le> x")
    case True
    then have n: "0 < \<lfloor>x\<rfloor>" by simp
    from bitlen_bounds [OF n] have "\<lfloor>x\<rfloor> + 1 \<le> 2 ^ nat (bitlen \<lfloor>x\<rfloor>)" by simp
    then have "real_of_int (\<lfloor>x\<rfloor> + 1) \<le> real_of_int (2 ^ nat (bitlen \<lfloor>x\<rfloor>))"
      by (simp only: of_int_le_iff)
    then have "real_of_int \<lfloor>x\<rfloor> + 1 \<le> 2 ^ nat (bitlen \<lfloor>x\<rfloor>)" by simp
    then have "x < 2 ^ nat (bitlen \<lfloor>x\<rfloor>)" by linarith
    moreover have "0 \<le> bitlen \<lfloor>x\<rfloor>" by (rule bitlen_nonneg)
    ultimately show ?thesis using True by (simp add: ilog2_def power_int_def)
  next
    case False
    let ?k = "\<lceil>1 / x\<rceil>"
    let ?j = "bitlen (?k - 1)"
    from False assms have "1 < 1 / x" by simp
    then have k: "0 < ?k - 1" by (simp add: less_ceiling_iff)
    then have j1: "1 \<le> ?j" by (simp add: bitlen_alt_def)
    from bitlen_bounds [OF k] have "2 ^ nat (?j - 1) \<le> ?k - 1" by simp
    then have "real_of_int (2 ^ nat (?j - 1)) \<le> real_of_int (?k - 1)"
      by (simp only: of_int_le_iff)
    then have "2 ^ nat (?j - 1) \<le> real_of_int ?k - 1" by simp
    then have "2 ^ nat (?j - 1) < 1 / x" by linarith
    with assms have "x < 1 / 2 ^ nat (?j - 1)" by (simp add: field_simps)
    moreover have "- ?j + 1 \<le> 0" using j1 by simp
    moreover have "nat (- (- ?j + 1)) = nat (?j - 1)" by simp
    ultimately show ?thesis using False j1
      by (simp add: ilog2_def power_int_def inverse_eq_divide power_one_over)
  qed
qed


lemma py_round_mono: "x \<le> y \<Longrightarrow> py_round x \<le> py_round y"
proof -
  assume xy: "x \<le> y"
  then have f: "\<lfloor>x\<rfloor> \<le> \<lfloor>y\<rfloor>" by (rule floor_mono)
  have lo: "\<lfloor>y\<rfloor> \<le> py_round y" and hi: "py_round x \<le> \<lfloor>x\<rfloor> + 1"
    by (simp_all add: py_round_def Let_def)
  show ?thesis
  proof (cases "\<lfloor>x\<rfloor> = \<lfloor>y\<rfloor>")
    case True
    with xy show ?thesis by (auto simp: py_round_def Let_def)
  next
    case False
    with f have "\<lfloor>x\<rfloor> + 1 \<le> \<lfloor>y\<rfloor>" by simp
    with lo hi show ?thesis by linarith
  qed
qed

lemma py_round_of_int: "py_round (of_int n) = n"
  by (simp add: py_round_def)

lemma py_round_ge_int: "of_int n \<le> x \<Longrightarrow> n \<le> py_round x"
  using py_round_mono [of "of_int n" x] by (simp add: py_round_of_int)

lemma py_round_le_int: "x \<le> of_int n \<Longrightarrow> py_round x \<le> n"
  using py_round_mono [of x "of_int n"] by (simp add: py_round_of_int)

lemma scaled_bounds:
  assumes "0 < x"
  defines "u \<equiv> 2 powi (ilog2 x - 52)"
  shows "0 < u" and "2 ^ 52 \<le> x / u" and "x / u < 2 ^ 53"
proof -
  show u: "0 < u" by (simp add: u_def)
  have e: "2 powi ilog2 x = 2 ^ 52 * u"
    unfolding u_def by (simp add: power_int_diff)
  have e1: "2 powi (ilog2 x + 1) = 2 ^ 53 * u"
    unfolding u_def by (simp add: power_int_diff power_int_add)
  from ilog2_bounds(1) [OF assms(1)] e have "2 ^ 52 * u \<le> x" by simp
  with u show "2 ^ 52 \<le> x / u" by (simp add: field_simps)
  from ilog2_bounds(2) [OF assms(1)] e1 have "x < 2 ^ 53 * u" by simp
  with u show "x / u < 2 ^ 53" by (simp add: field_simps)
qed

lemma fl_pos_bounds:
  assumes "0 < x"
  shows "2 powi ilog2 x \<le> fl_pos x" and "fl_pos x \<le> 2 powi (ilog2 x + 1)"
proof -
  let ?u = "2 powi (ilog2 x - 52) :: real"
  note b = scaled_bounds [OF assms]
  have e: "2 powi ilog2 x = 2 ^ 52 * ?u"
    by (simp add: power_int_diff)
  have e1: "2 powi (ilog2 x + 1) = 2 ^ 53 * ?u"
    by (simp add: power_int_diff power_int_add)
  from b(2) have "real_of_int (2 ^ 52) \<le> x / ?u" by simp
  then have "2 ^ 52 \<le> py_round (x / ?u)" by (rule py_round_ge_int)
  then have "real_of_int (2 ^ 52) \<le> real_of_int (py_round (x / ?u))"
    by (simp only: of_int_le_iff)
  then have "2 ^ 52 * ?u \<le> real_of_int (py_round (x / ?u)) * ?u"
    using b(1) by (intro mult_right_mono) simp_all
  with e show "2 powi ilog2 x \<le> fl_pos x" by (simp add: fl_pos_def Let_def)
  from b(3) have "x / ?u \<le> real_of_int (2 ^ 53)" by simp
  then have "py_round (x / ?u) \<le> 2 ^ 53" by (rule py_round_le_int)
  then have "real_of_int (py_round (x / ?u)) \<le> real_of_int (2 ^ 53)"
    by (simp only: of_int_le_iff)
  then have "real_of_int (py_round (x / ?u)) * ?u \<le> 2 ^ 53 * ?u"
    using b(1) by (intro mult_right_mono) simp_all
  with e1 show "fl_pos x \<le> 2 powi (ilog2 x + 1)" by (simp add: fl_pos_def Let_def)
qed

lemma fl_pos_mono:
  assumes "0 < x" and "x \<le> y"
  shows "fl_pos x \<le> fl_pos y"
proof -
  from assms have y: "0 < y" by simp
  have "(2::real) powi ilog2 x \<le> x" by (rule ilog2_bounds(1) [OF assms(1)])
  also note assms(2)
  also have "y < 2 powi (ilog2 y + 1)" by (rule ilog2_bounds(2) [OF y])
  finally have lt: "(2::real) powi ilog2 x < 2 powi (ilog2 y + 1)" .
  have "ilog2 x < ilog2 y + 1"
  proof (rule ccontr)
    assume "\<not> ilog2 x < ilog2 y + 1"
    then have "ilog2 y + 1 \<le> ilog2 x" by simp
    then have "(2::real) powi (ilog2 y + 1) \<le> 2 powi ilog2 x"
      by (intro power_int_increasing) simp_all
    with lt show False by simp
  qed
  then consider "ilog2 x = ilog2 y" | "ilog2 x + 1 \<le> ilog2 y" by linarith
  then show ?thesis
  proof cases
    case 1
    let ?u = "2 powi (ilog2 y - 52) :: real"
    have u: "0 < ?u" by simp
    from assms(2) u have "x / ?u \<le> y / ?u" by (simp add: divide_right_mono)
    then have "py_round (x / ?u) \<le> py_round (y / ?u)" by (rule py_round_mono)
    then have "real_of_int (py_round (x / ?u)) * ?u \<le> real_of_int (py_round (y / ?u)) * ?u"
      using u by (intro mult_right_mono) simp_all
    with 1 show ?thesis by (simp add: fl_pos_def Let_def)
  next
    case 2
    have "fl_pos x \<le> 2 powi (ilog2 x + 1)" by (rule fl_pos_bounds(2) [OF assms(1)])
    also have "\<dots> \<le> 2 powi ilog2 y" using 2 by (intro power_int_increasing) simp_all
    also have "\<dots> \<le> fl_pos y" by (rule fl_pos_bounds(1) [OF y])
    finally show ?thesis .
  qed
qed

lemma fl_nonneg: "0 \<le> x \<Longrightarrow> 0 \<le> fl x"
proof (cases "x = 0")
  case True
  then show ?thesis by (simp add: fl_def)
next
  case False
  assume "0 \<le> x"
  with False have x: "0 < x" by simp
  have "(0::real) \<le> 2 powi ilog2 x" by simp
  also have "\<dots> \<le> fl_pos x" by (rule fl_pos_bounds(1) [OF x])
  finally show ?thesis using x by (simp add: fl_def)
qed

lemma fl_mono:
  assumes "0 \<le> x" and "x \<le> y"
  shows "fl x \<le> fl y"
proof (cases "x = 0")
  case True
  with assms fl_nonneg [of y] show ?thesis by (simp add: fl_def)
next
  case False
  with assms have "0 < x" "0 < y" by simp_all
  with fl_pos_mono [OF \<open>0 < x\<close> assms(2)] show ?thesis by (simp add: fl_def)
qed

lemma fl_positive: "0 < x \<Longrightarrow> 0 < fl x"
proof -
  assume x: "0 < x"
  have "(0::real) < 2 powi ilog2 x" by simp
  also have "\<dots> \<le> fl_pos x" by (rule fl_pos_bounds(1) [OF x])
  finally show ?thesis using x by (simp add: fl_def)
qed

lemma fadd_nonneg: "0 \<le> x \<Longrightarrow> 0 \<le> y \<Longrightarrow> 0 \<le> fadd x y"
  by (simp add: fadd_def fl_nonneg)

lemma fmul_nonneg: "0 \<le> x \<Longrightarrow> 0 \<le> y \<Longrightarrow> 0 \<le> fmul x y"
  by (simp add: fmul_def fl_nonneg)

text \<open>Evaluating the rounding, and the whole model, on numerals.\<close>

lemma powi_eval: "(2::real) powi e = (if 0 \<le> e then 2 ^ nat e else 1 / 2 ^ nat (- e))"
  by (simp add: power_int_def power_one_over inverse_eq_divide)

lemmas fl_eval =
  fl_def fl_pos_def ilog2_def py_round_def Let_def powi_eval compute_bitlen
  fadd_def fsub_def fmul_def

lemmas model_eval =
  generate_row_def generate_row_locals_def emit_row_def row_dict_def
  bnd_def ret_def lift_def raise_def choice_def choices_def index_def lookup_def keys_def
  vals_def random_random_def uniform_def rand_range_def psf_cost_def unit_cost_def
  labor_component_cost_def choose_quality_def choose_flooring_type_def
  choose_ceiling_type_def choose_furniture_level_def kitchen_package_by_level_def
  bathroom_package_by_level_def
  cities_def city_names_def room_types_def renovation_levels_def quality_tiers_def
  painting_psf_def flooring_catalog_def ceiling_catalog_def electrical_psf_def
  plumbing_per_bath_def plumbing_per_kitchen_def kitchen_packages_def bathroom_packages_def
  furniture_room_def productivity_def
  AS_OF_DATE_def INCLUDE_GST_def GST_RATE_def MATERIAL_PRICE_INDEX_def
  py_int_def py_div_def round_ndigits_def bisect.simps scripted_def

subsection \<open>The drawing monad and the library\<close>

lemma prng_ok_scripted: "prng_ok scripted"
  by (auto simp: prng_ok_def scripted_def split: list.splits prod.splits)

lemma succeeds_ret: "Q x \<Longrightarrow> succeeds (ret x) Q"
  by (simp add: succeeds_def ret_def)

lemma succeeds_bnd:
  assumes "succeeds m P" and "\<And>x. P x \<Longrightarrow> succeeds (f x) Q"
  shows "succeeds (bnd m f) Q"
  unfolding succeeds_def
proof
  fix s
  from assms(1) obtain x s1 where m: "m s = Inr (x, s1)" and "P x"
    unfolding succeeds_def by blast
  from assms(2) [OF \<open>P x\<close>] obtain y s2 where "f x s1 = Inr (y, s2)" and "Q y"
    unfolding succeeds_def by blast
  with m show "\<exists>y s'. bnd m f s = Inr (y, s') \<and> Q y"
    by (simp add: bnd_def)
qed

lemma succeeds_weaken: "succeeds m P \<Longrightarrow> (\<And>x. P x \<Longrightarrow> Q x) \<Longrightarrow> succeeds m Q"
  unfolding succeeds_def by blast

lemma succeeds_lift: "r = Inr x \<Longrightarrow> Q x \<Longrightarrow> succeeds (lift r) Q"
  by (simp add: succeeds_def lift_def)

lemma succeeds_random:
  "prng_ok G \<Longrightarrow> succeeds (random_random G) (\<lambda>u. 0 \<le> u \<and> u < 1)"
  by (simp add: succeeds_def random_random_def prng_ok_def prod_eq_iff)


lemma succeeds_rand_range:
  assumes "prng_ok G" and "0 \<le> a" and "a \<le> b"
  shows "succeeds (rand_range G a b) (\<lambda>x. 0 \<le> x \<and> (0 < a \<longrightarrow> 0 < x))"
  unfolding rand_range_def uniform_def
proof (rule succeeds_bnd [OF succeeds_random [OF assms(1)]], rule succeeds_ret)
  fix u :: real
  assume u: "0 \<le> u \<and> u < 1"
  from assms(3) have "0 \<le> fsub b a" by (simp add: fsub_def fl_nonneg)
  with u have y: "0 \<le> fmul (fsub b a) u" by (simp add: fmul_nonneg)
  with assms(2) have "0 \<le> fadd a (fmul (fsub b a) u)" by (simp add: fadd_nonneg)
  moreover from y have "0 < fadd a (fmul (fsub b a) u)" if "0 < a"
    unfolding fadd_def using that by (intro fl_positive) simp
  ultimately show "0 \<le> fadd a (fmul (fsub b a) u) \<and> (0 < a \<longrightarrow> 0 < fadd a (fmul (fsub b a) u))"
    by simp
qed

lemma succeeds_choice:
  assumes "prng_ok G" and "seq \<noteq> []"
  shows "succeeds (choice G seq) (\<lambda>x. x \<in> set seq)"
proof -
  have "\<exists>x s'. choice G seq s = Inr (x, s') \<and> x \<in> set seq" for s
  proof -
    obtain i s1 where r: "rng_randbelow G (length seq) s = (i, s1)"
      by (cases "rng_randbelow G (length seq) s")
    with assms have "i < length seq"
      unfolding prng_ok_def by (metis fst_conv length_greater_0_conv)
    with r assms(2) show ?thesis
      by (simp add: choice_def bnd_def lift_def index_def)
  qed
  then show ?thesis by (simp add: succeeds_def)
qed

lemma bisect_bounds:
  "lo \<le> hi \<Longrightarrow> hi \<le> length a \<Longrightarrow> \<exists>i. bisect a x lo hi = Inr i \<and> lo \<le> i \<and> i \<le> hi"
proof (induction a x lo hi rule: bisect.induct)
  case (1 a x lo hi)
  show ?case
  proof (cases "lo < hi")
    case False
    with "1.prems" show ?thesis by (subst bisect.simps) simp
  next
    case True
    let ?mid = "(lo + hi) div 2"
    from True "1.prems" have mid: "?mid < length a" "lo \<le> ?mid" "?mid < hi" by auto
    show ?thesis
    proof (cases "x < a ! ?mid")
      case True
      from "1.IH"(1) [OF \<open>lo < hi\<close> mid(1) True mid(2)] mid "1.prems"
      obtain i where "bisect a x lo ?mid = Inr i" "lo \<le> i" "i \<le> ?mid" by auto
      with \<open>lo < hi\<close> mid True show ?thesis
        by (subst bisect.simps) simp
    next
      case False
      from "1.IH"(2) [OF \<open>lo < hi\<close> mid(1) False] mid "1.prems"
      obtain i where "bisect a x (?mid + 1) hi = Inr i" "?mid + 1 \<le> i" "i \<le> hi" by auto
      with \<open>lo < hi\<close> mid False show ?thesis
        by (subst bisect.simps) simp
    qed
  qed
qed

lemma length_accumulate_from: "length (accumulate_from t xs) = length xs"
  by (induction xs arbitrary: t) auto

lemma length_accumulate: "length (accumulate xs) = length xs"
  by (cases xs) (auto simp: length_accumulate_from)

lemma accumulate_from_Nil_iff: "accumulate_from t xs = [] \<longleftrightarrow> xs = []"
  by (cases xs) auto

lemma last_accumulate_from: "xs \<noteq> [] \<Longrightarrow> last (accumulate_from t xs) = t + sum_list xs"
proof (induction xs arbitrary: t)
  case Nil
  then show ?case by simp
next
  case (Cons x xs)
  then show ?case by (cases "xs = []") (auto simp: accumulate_from_Nil_iff)
qed

lemma last_accumulate: "xs \<noteq> [] \<Longrightarrow> last (accumulate xs) = sum_list xs"
proof (cases xs)
  case Nil
  assume "xs \<noteq> []"
  with Nil show ?thesis by simp
next
  case (Cons x ys)
  show ?thesis
  proof (cases "ys = []")
    case True
    with Cons show ?thesis by simp
  next
    case False
    with Cons last_accumulate_from [OF False, of x] show ?thesis
      by (simp add: accumulate_from_Nil_iff)
  qed
qed

lemma succeeds_choices:
  assumes G: "prng_ok G" and len: "length weights = length population"
    and ne: "population \<noteq> []" and pos: "0 < sum_list weights"
  shows "succeeds (choices G population weights) (\<lambda>x. x \<in> set population)"
proof -
  let ?cw = "accumulate weights"
  from len ne have wne: "weights \<noteq> []" by auto
  have cw: "length ?cw = length population" "?cw \<noteq> []" "\<not> last ?cw \<le> 0"
    using len ne pos wne last_accumulate [OF wne] length_accumulate [of weights] by auto
  have "succeeds (bnd (random_random G) (\<lambda>u.
           bnd (lift (bisect ?cw (u * last ?cw) 0 (length population - 1))) (\<lambda>i.
           lift (index population i)))) (\<lambda>x. x \<in> set population)"
  proof (rule succeeds_bnd [OF succeeds_random [OF G]])
    fix u :: real
    from bisect_bounds [of 0 "length population - 1" ?cw "u * last ?cw"] cw(1)
    obtain i where i: "bisect ?cw (u * last ?cw) 0 (length population - 1) = Inr i"
      "i \<le> length population - 1" by auto
    with ne have "i < length population" by (cases population) auto
    with i show "succeeds (bnd (lift (bisect ?cw (u * last ?cw) 0 (length population - 1)))
        (\<lambda>i. lift (index population i))) (\<lambda>x. x \<in> set population)"
      by (simp add: succeeds_def bnd_def lift_def index_def)
  qed
  with cw show ?thesis by (simp add: choices_def Let_def)
qed

lemma lookup_keys:
  assumes "k \<in> set (keys d)"
  shows "\<exists>v. lookup d k = Inr v \<and> v \<in> set (vals d)"
proof -
  from assms have "map_of d k \<noteq> None"
    by (simp add: keys_def map_of_eq_None_iff)
  then obtain v where v: "map_of d k = Some v" by blast
  then have "(k, v) \<in> set d" by (rule map_of_SomeD)
  then have "v \<in> set (vals d)" by (force simp: vals_def)
  with v show ?thesis by (simp add: lookup_def)
qed

lemma succeeds_lookup:
  assumes "k \<in> set (keys d)"
  shows "succeeds (lift (lookup d k)) (\<lambda>v. lookup d k = Inr v \<and> v \<in> set (vals d))"
proof -
  from lookup_keys [OF assms] obtain v where "lookup d k = Inr v" "v \<in> set (vals d)" by blast
  then show ?thesis by (simp add: succeeds_def lift_def)
qed

subsection \<open>Tables and helper functions\<close>

lemma py_round_nonneg: "0 \<le> x \<Longrightarrow> 0 \<le> py_round x"
  by (auto simp: py_round_def Let_def)

lemma round_ndigits_nonneg: "0 \<le> x \<Longrightarrow> 0 \<le> round_ndigits x n"
  by (simp add: round_ndigits_def py_round_nonneg)

lemma py_int_bounds:
  "of_int a \<le> x \<Longrightarrow> x \<le> of_int b \<Longrightarrow> 0 \<le> a \<Longrightarrow> a \<le> py_int x \<and> py_int x \<le> b"
  by (auto simp: py_int_def le_floor_iff floor_le_iff)

lemma py_int_nonneg: "0 \<le> x \<Longrightarrow> 0 \<le> py_int x"
  by (simp add: py_int_def)

lemma cities_ok: "v \<in> set (vals cities) \<Longrightarrow> city_ok v"
  by (auto simp: cities_def vals_def city_ok_def)

lemma quality_tiers_pos: "v \<in> set (vals quality_tiers) \<Longrightarrow> 0 < v"
  by (auto simp: quality_tiers_def vals_def)

lemma renovation_levels_ok: "v \<in> set (vals renovation_levels) \<Longrightarrow> range_ok (labor_overhead v)"
  by (auto simp: renovation_levels_def vals_def range_ok_def)

lemma flooring_catalog_ok: "v \<in> set (vals flooring_catalog) \<Longrightarrow> range_ok v"
  by (auto simp: flooring_catalog_def vals_def range_ok_def)

lemma ceiling_catalog_ok: "v \<in> set (vals ceiling_catalog) \<Longrightarrow> range_ok v"
  by (auto simp: ceiling_catalog_def vals_def range_ok_def)

lemma kitchen_packages_ok: "v \<in> set (vals kitchen_packages) \<Longrightarrow> range_ok v"
  by (auto simp: kitchen_packages_def vals_def range_ok_def)

lemma bathroom_packages_ok: "v \<in> set (vals bathroom_packages) \<Longrightarrow> range_ok v"
  by (auto simp: bathroom_packages_def vals_def range_ok_def)

lemma furniture_room_ok: "v \<in> set (vals furniture_room) \<Longrightarrow> range_ok v"
  by (auto simp: furniture_room_def vals_def range_ok_def)

lemma succeeds_choose_quality:
  "prng_ok G \<Longrightarrow> succeeds (choose_quality G) (\<lambda>q. q \<in> set (keys quality_tiers))"
  unfolding choose_quality_def
  by (rule succeeds_choices) (simp_all add: quality_tiers_def keys_def)

lemma succeeds_quality_factor:
  "q \<in> set (keys quality_tiers) \<Longrightarrow> succeeds (lift (lookup quality_tiers q)) (\<lambda>v. 0 < v)"
  by (rule succeeds_weaken [OF succeeds_lookup]) (auto dest: quality_tiers_pos)

lemma succeeds_choose_flooring_type:
  assumes "prng_ok G"
  shows "succeeds (choose_flooring_type G rt) (\<lambda>f. f \<in> set (keys flooring_catalog))"
proof (cases "rt \<in> set [''Kitchen'', ''Bathroom'']")
  case True
  have "succeeds (choices G [''Ceramic_Tile'', ''Vitrified_Tile'', ''Granite''] [0.45, 0.40, 0.15])
     (\<lambda>x. x \<in> set [''Ceramic_Tile'', ''Vitrified_Tile'', ''Granite''])"
    by (rule succeeds_choices [OF assms]) simp_all
  then have "succeeds (choices G [''Ceramic_Tile'', ''Vitrified_Tile'', ''Granite''] [0.45, 0.40, 0.15])
     (\<lambda>f. f \<in> set (keys flooring_catalog))"
    by (rule succeeds_weaken) (auto simp: flooring_catalog_def keys_def)
  with True show ?thesis by (simp only: choose_flooring_type_def if_True)
next
  case False
  have "succeeds (choices G (keys flooring_catalog) [0.25, 0.35, 0.10, 0.08, 0.10, 0.07, 0.05])
     (\<lambda>f. f \<in> set (keys flooring_catalog))"
    by (rule succeeds_choices [OF assms]) (simp_all add: flooring_catalog_def keys_def)
  with False show ?thesis by (simp only: choose_flooring_type_def if_False)
qed

lemma succeeds_choose_ceiling_type:
  "prng_ok G \<Longrightarrow> succeeds (choose_ceiling_type G) (\<lambda>c. c \<in> set (keys ceiling_catalog))"
  unfolding choose_ceiling_type_def
  by (rule succeeds_choice) (simp_all add: ceiling_catalog_def keys_def)

lemma succeeds_choose_furniture_level:
  assumes "prng_ok G"
  shows "succeeds (choose_furniture_level G rt)
     (\<lambda>f. f \<in> set (keys furniture_room) \<and> (rt = ''Kitchen'' \<or> rt = ''Bathroom'' \<longrightarrow> f = ''None''))"
proof (cases "rt \<in> set [''Kitchen'', ''Bathroom'']")
  case True
  then show ?thesis
    by (simp add: choose_furniture_level_def succeeds_ret furniture_room_def keys_def)
next
  case False
  have "succeeds (choices G [''None'', ''Basic'', ''Standard'', ''Premium''] [0.35, 0.35, 0.22, 0.08])
     (\<lambda>x. x \<in> set [''None'', ''Basic'', ''Standard'', ''Premium''])"
    by (rule succeeds_choices [OF assms]) simp_all
  then have "succeeds (choices G [''None'', ''Basic'', ''Standard'', ''Premium''] [0.35, 0.35, 0.22, 0.08])
     (\<lambda>f. f \<in> set (keys furniture_room) \<and> (rt = ''Kitchen'' \<or> rt = ''Bathroom'' \<longrightarrow> f = ''None''))"
    using False by (rule_tac succeeds_weaken) (auto simp: furniture_room_def keys_def)
  with False show ?thesis by (simp only: choose_furniture_level_def if_False)
qed

lemma succeeds_kitchen_package_by_level:
  assumes "prng_ok G"
  shows "succeeds (kitchen_package_by_level G lvl) (\<lambda>k. k \<in> set (keys kitchen_packages))"
proof -
  have 1: "succeeds (choice G [''Basic_L'', ''Standard_L'']) (\<lambda>k. k \<in> set (keys kitchen_packages))"
    by (rule succeeds_weaken [OF succeeds_choice [OF assms]])
       (auto simp: kitchen_packages_def keys_def)
  have 2: "succeeds (choice G [''Standard_L'', ''Premium_U'', ''Luxury_Island''])
     (\<lambda>k. k \<in> set (keys kitchen_packages))"
    by (rule succeeds_weaken [OF succeeds_choice [OF assms]])
       (auto simp: kitchen_packages_def keys_def)
  have 3: "''Basic_L'' \<in> set (keys kitchen_packages)"
    by (simp add: kitchen_packages_def keys_def)
  from 1 2 3 show ?thesis by (simp add: kitchen_package_by_level_def succeeds_ret)
qed

lemma succeeds_bathroom_package_by_level:
  assumes "prng_ok G"
  shows "succeeds (bathroom_package_by_level G lvl) (\<lambda>k. k \<in> set (keys bathroom_packages))"
proof -
  have 1: "succeeds (choice G [''Basic'', ''Standard'']) (\<lambda>k. k \<in> set (keys bathroom_packages))"
    by (rule succeeds_weaken [OF succeeds_choice [OF assms]])
       (auto simp: bathroom_packages_def keys_def)
  have 2: "succeeds (choice G [''Standard'', ''Premium''])
     (\<lambda>k. k \<in> set (keys bathroom_packages))"
    by (rule succeeds_weaken [OF succeeds_choice [OF assms]])
       (auto simp: bathroom_packages_def keys_def)
  have 3: "''Basic'' \<in> set (keys bathroom_packages)"
    by (simp add: bathroom_packages_def keys_def)
  from 1 2 3 show ?thesis by (simp add: bathroom_package_by_level_def succeeds_ret)
qed

lemma succeeds_psf_cost:
  assumes "prng_ok G" and "range_ok r" and "0 \<le> q" and "0 \<le> m"
  shows "succeeds (psf_cost G r q m) (\<lambda>x. 0 \<le> x)"
  unfolding psf_cost_def
proof (rule succeeds_bnd [OF succeeds_rand_range [OF assms(1)]])
  show "0 \<le> fst r" "fst r \<le> snd r" using assms(2) by (simp_all add: range_ok_def)
next
  fix base :: real
  assume "0 \<le> base \<and> (0 < fst r \<longrightarrow> 0 < base)"
  with assms(3,4) show "succeeds (ret (base * q * m * MATERIAL_PRICE_INDEX)) (\<lambda>x. 0 \<le> x)"
    by (intro succeeds_ret) (simp add: MATERIAL_PRICE_INDEX_def)
qed

lemma succeeds_unit_cost:
  assumes "prng_ok G" and "range_ok r" and "0 \<le> q" and "0 \<le> m"
  shows "succeeds (unit_cost G r q m) (\<lambda>x. 0 \<le> x)"
  unfolding unit_cost_def
proof (rule succeeds_bnd [OF succeeds_rand_range [OF assms(1)]])
  show "0 \<le> fst r" "fst r \<le> snd r" using assms(2) by (simp_all add: range_ok_def)
next
  fix base :: real
  assume "0 \<le> base \<and> (0 < fst r \<longrightarrow> 0 < base)"
  with assms(3,4) show "succeeds (ret (base * q * m * MATERIAL_PRICE_INDEX)) (\<lambda>x. 0 \<le> x)"
    by (intro succeeds_ret) (simp add: MATERIAL_PRICE_INDEX_def)
qed

lemma succeeds_sqft_per_day:
  assumes "prng_ok G"
  shows "succeeds
    (if category = ''painting'' then
            bnd (lift (lookup productivity ''painting_sqft_per_day'')) (\<lambda>r.
            rand_range G (fst r) (snd r))
          else if category = ''flooring'' then
            bnd (lift (lookup productivity ''flooring_sqft_per_day'')) (\<lambda>r.
            rand_range G (fst r) (snd r))
          else if category = ''ceiling'' then
            bnd (lift (lookup productivity ''ceiling_sqft_per_day'')) (\<lambda>r.
            rand_range G (fst r) (snd r))
          else if category = ''electrical'' then
            bnd (lift (lookup productivity ''electrical_sqft_per_day'')) (\<lambda>r.
            rand_range G (fst r) (snd r))
          else ret 150.0) (\<lambda>x. 0 < x)"
proof -
  have r: "succeeds (bnd (lift (lookup productivity k)) (\<lambda>r. rand_range G (fst r) (snd r))) (\<lambda>x. 0 < x)"
    if "k \<in> set (keys productivity)" for k
  proof (rule succeeds_bnd [OF succeeds_lookup [OF that]])
    fix v :: "real \<times> real"
    assume "lookup productivity k = Inr v \<and> v \<in> set (vals productivity)"
    then have v: "0 < fst v" "fst v \<le> snd v"
      by (auto simp: productivity_def vals_def)
    from v(1) have v0: "0 \<le> fst v" by simp
    show "succeeds (rand_range G (fst v) (snd v)) (\<lambda>x. 0 < x)"
      by (rule succeeds_weaken [OF succeeds_rand_range [OF assms v0 v(2)]]) (use v in auto)
  qed
  have k: "''painting_sqft_per_day'' \<in> set (keys productivity)"
    "''flooring_sqft_per_day'' \<in> set (keys productivity)"
    "''ceiling_sqft_per_day'' \<in> set (keys productivity)"
    "''electrical_sqft_per_day'' \<in> set (keys productivity)"
    by (simp_all add: productivity_def keys_def)
  from r [OF k(1)] r [OF k(2)] r [OF k(3)] r [OF k(4)] show ?thesis
    by (simp add: succeeds_ret)
qed

lemma succeeds_labor_component_cost:
  assumes G: "prng_ok G" and c: "city_ok ci"
  shows "succeeds (labor_component_cost G a ci cat) (\<lambda>x. 0 \<le> x)"
  unfolding labor_component_cost_def Let_def
proof (rule succeeds_bnd [OF succeeds_rand_range [OF G]])
  show "0 \<le> real_of_int (fst (labor_day_rate ci))"
    "real_of_int (fst (labor_day_rate ci)) \<le> real_of_int (snd (labor_day_rate ci))"
    using c by (simp_all add: city_ok_def)
next
  fix day_rate :: real
  assume "0 \<le> day_rate \<and> (0 < real_of_int (fst (labor_day_rate ci)) \<longrightarrow> 0 < day_rate)"
  then have dr: "0 \<le> day_rate" by simp
  show "succeeds (bnd (if cat = ''painting'' then
            bnd (lift (lookup productivity ''painting_sqft_per_day'')) (\<lambda>r.
            rand_range G (fst r) (snd r))
          else if cat = ''flooring'' then
            bnd (lift (lookup productivity ''flooring_sqft_per_day'')) (\<lambda>r.
            rand_range G (fst r) (snd r))
          else if cat = ''ceiling'' then
            bnd (lift (lookup productivity ''ceiling_sqft_per_day'')) (\<lambda>r.
            rand_range G (fst r) (snd r))
          else if cat = ''electrical'' then
            bnd (lift (lookup productivity ''electrical_sqft_per_day'')) (\<lambda>r.
            rand_range G (fst r) (snd r))
          else ret 150.0) (\<lambda>sqft_per_day.
     bnd (lift (py_div (of_int a) sqft_per_day)) (\<lambda>q.
     ret (day_rate * max 1.0 q)))) (\<lambda>x. 0 \<le> x)"
  proof (rule succeeds_bnd [OF succeeds_sqft_per_day [OF G]])
    fix sqft_per_day :: real
    assume "0 < sqft_per_day"
    then have "py_div (of_int a) sqft_per_day = Inr (of_int a / sqft_per_day)"
      by (simp add: py_div_def)
    then show "succeeds (bnd (lift (py_div (of_int a) sqft_per_day)) (\<lambda>q.
        ret (day_rate * max 1.0 q))) (\<lambda>x. 0 \<le> x)"
      using dr by (simp add: succeeds_def bnd_def lift_def ret_def)
  qed
qed

subsection \<open>The steps of the row generator\<close>

lemma succeeds_city_info:
  "c \<in> set city_names \<Longrightarrow>
   succeeds (lift (lookup cities c)) (\<lambda>v. lookup cities c = Inr v \<and> city_ok v)"
  unfolding city_names_def
  by (rule succeeds_weaken [OF succeeds_lookup]) (auto dest: cities_ok)

lemma fl_area_constants: "fl 480 = 480" "fl 70 = 70" "fl 550 = 550"
  by (simp_all add: fl_eval)

lemma area_draw_bounds:
  assumes "0 \<le> u" and "u < 1"
  shows "70 \<le> fadd 70 (fmul (fsub 550 70) u)" and "fadd 70 (fmul (fsub 550 70) u) \<le> 550"
proof -
  let ?y = "fl (480 * u)"
  from assms have y0: "0 \<le> ?y" by (intro fl_nonneg) simp
  from assms have "?y \<le> fl 480" by (intro fl_mono) simp_all
  then have y1: "?y \<le> 480" by (simp add: fl_area_constants)
  from y0 have "fl 70 \<le> fl (70 + ?y)" by (intro fl_mono) simp_all
  then show "70 \<le> fadd 70 (fmul (fsub 550 70) u)"
    by (simp add: fadd_def fmul_def fsub_def fl_area_constants)
  from y0 y1 have "fl (70 + ?y) \<le> fl 550" by (intro fl_mono) simp_all
  then show "fadd 70 (fmul (fsub 550 70) u) \<le> 550"
    by (simp add: fadd_def fmul_def fsub_def fl_area_constants)
qed

lemma succeeds_area:
  assumes "prng_ok G"
  shows "succeeds (rand_range G 70 550) (\<lambda>a. 70 \<le> py_int a \<and> py_int a \<le> 550)"
  unfolding rand_range_def uniform_def
proof (rule succeeds_bnd [OF succeeds_random [OF assms]], rule succeeds_ret)
  fix u :: real
  assume u: "0 \<le> u \<and> u < 1"
  let ?x = "fadd 70 (fmul (fsub 550 70) u)"
  from u area_draw_bounds [of u] have "real_of_int 70 \<le> ?x" "?x \<le> real_of_int 550"
    by simp_all
  from py_int_bounds [OF this] show "70 \<le> py_int ?x \<and> py_int ?x \<le> 550" by simp
qed

lemma succeeds_overhead:
  assumes "prng_ok G" and "range_ok r"
  shows "succeeds (rand_range G (fst r) (snd r)) (\<lambda>lo. 0 \<le> round_ndigits lo 3)"
proof (rule succeeds_weaken [OF succeeds_rand_range [OF assms(1)]])
  show "0 \<le> fst r" "fst r \<le> snd r" using assms(2) by (simp_all add: range_ok_def)
next
  fix x :: real
  assume "0 \<le> x \<and> (0 < fst r \<longrightarrow> 0 < x)"
  then show "0 \<le> round_ndigits x 3" by (intro round_ndigits_nonneg) simp
qed

lemma succeeds_has_ceiling:
  assumes "prng_ok G"
  shows "succeeds (if rt \<noteq> ''Bathroom''
          then bnd (random_random G) (\<lambda>u. ret (u < 0.65)) else ret False)
     (\<lambda>h. rt = ''Bathroom'' \<longrightarrow> \<not> h)"
proof -
  have "succeeds (bnd (random_random G) (\<lambda>u. ret (u < 0.65))) (\<lambda>h. rt = ''Bathroom'' \<longrightarrow> \<not> h)"
    if "rt \<noteq> ''Bathroom''"
    by (rule succeeds_bnd [OF succeeds_random [OF assms]]) (simp add: succeeds_ret that)
  then show ?thesis by (simp add: succeeds_ret)
qed

lemma succeeds_ceiling_type:
  assumes "prng_ok G"
  shows "succeeds (if h then choose_ceiling_type G else ret ''None'')
     (\<lambda>ct. if h then ct \<in> set (keys ceiling_catalog) else ct = ''None'')"
proof (cases h)
  case True
  with succeeds_choose_ceiling_type [OF assms] show ?thesis by simp
next
  case False
  then show ?thesis by (simp add: succeeds_ret)
qed

lemma succeeds_ceiling_area:
  assumes "prng_ok G" and "0 \<le> a"
  shows "succeeds (if h
          then bnd (rand_range G 0.8 1.05) (\<lambda>f. ret (py_int (of_int a * f)))
          else ret 0) (\<lambda>ca. 0 \<le> ca)"
proof (cases h)
  case True
  have "succeeds (bnd (rand_range G 0.8 1.05) (\<lambda>f. ret (py_int (of_int a * f)))) (\<lambda>ca. 0 \<le> ca)"
  proof (rule succeeds_bnd [OF succeeds_rand_range [OF assms(1)]])
    fix f :: real
    assume "0 \<le> f \<and> ((0::real) < 0.8 \<longrightarrow> 0 < f)"
    then have "0 \<le> of_int a * f" using assms(2) by simp
    then show "succeeds (ret (py_int (of_int a * f))) (\<lambda>ca. 0 \<le> ca)"
      by (intro succeeds_ret py_int_nonneg)
  qed simp_all
  with True show ?thesis by simp
next
  case False
  then show ?thesis by (simp add: succeeds_ret)
qed

lemma succeeds_ceiling_rate:
  assumes "prng_ok G" and "if h then ct \<in> set (keys ceiling_catalog) else ct = ''None''"
    and "cq \<in> set (keys quality_tiers)" and "0 \<le> m"
  shows "succeeds (if h
          then bnd (lift (lookup ceiling_catalog ct)) (\<lambda>ceiling_rng.
               bnd (lift (lookup quality_tiers cq)) (\<lambda>ceiling_q.
               psf_cost G ceiling_rng ceiling_q m))
          else ret 0.0) (\<lambda>r. 0 \<le> r \<and> (\<not> h \<longrightarrow> r = 0))"
proof (cases h)
  case True
  with assms(2) have ct: "ct \<in> set (keys ceiling_catalog)" by simp
  have "succeeds (bnd (lift (lookup ceiling_catalog ct)) (\<lambda>ceiling_rng.
               bnd (lift (lookup quality_tiers cq)) (\<lambda>ceiling_q.
               psf_cost G ceiling_rng ceiling_q m))) (\<lambda>r. 0 \<le> r)"
  proof (rule succeeds_bnd [OF succeeds_lookup [OF ct]])
    fix rng :: "real \<times> real"
    assume "lookup ceiling_catalog ct = Inr rng \<and> rng \<in> set (vals ceiling_catalog)"
    then have rng: "range_ok rng" by (simp add: ceiling_catalog_ok)
    show "succeeds (bnd (lift (lookup quality_tiers cq)) (\<lambda>ceiling_q.
               psf_cost G rng ceiling_q m)) (\<lambda>r. 0 \<le> r)"
    proof (rule succeeds_bnd [OF succeeds_quality_factor [OF assms(3)]])
      fix q :: real
      assume "0 < q"
      then show "succeeds (psf_cost G rng q m) (\<lambda>r. 0 \<le> r)"
        by (intro succeeds_psf_cost assms rng) simp
    qed
  qed
  with True show ?thesis by simp
next
  case False
  then show ?thesis by (simp add: succeeds_ret)
qed

lemma succeeds_opt_labor:
  assumes "prng_ok G" and "city_ok ci"
  shows "succeeds (if h then labor_component_cost G a ci cat else ret 0.0)
     (\<lambda>c. 0 \<le> c \<and> (\<not> h \<longrightarrow> c = 0))"
proof (cases h)
  case True
  with succeeds_labor_component_cost [OF assms] show ?thesis by simp
next
  case False
  then show ?thesis by (simp add: succeeds_ret)
qed

lemma succeeds_electrical_prob:
  assumes "lvl \<in> set (keys renovation_levels)"
  shows "succeeds (lift (lookup [(''Basic'', 0.4), (''Mid'', 0.65), (''Luxury'', 0.9)] lvl))
     (\<lambda>p :: real. True)"
proof (rule succeeds_weaken [OF succeeds_lookup])
  from assms show "lvl \<in> set (keys [(''Basic'', 0.4 :: real), (''Mid'', 0.65), (''Luxury'', 0.9)])"
    by (simp add: renovation_levels_def keys_def)
qed simp

lemma succeeds_electrical_rate:
  assumes "prng_ok G" and "0 \<le> m"
  shows "succeeds (if h then psf_cost G electrical_psf 1.0 m else ret 0.0) (\<lambda>r. 0 \<le> r)"
proof (cases h)
  case True
  have "succeeds (psf_cost G electrical_psf 1.0 m) (\<lambda>r. 0 \<le> r)"
    by (intro succeeds_psf_cost assms) (simp_all add: range_ok_def electrical_psf_def)
  with True show ?thesis by simp
next
  case False
  then show ?thesis by (simp add: succeeds_ret)
qed

lemma succeeds_kitchen_pkg:
  assumes "prng_ok G" and "0 \<le> m"
  shows "succeeds (if rt = ''Kitchen''
          then bnd (kitchen_package_by_level G lvl) (\<lambda>kname.
               bnd (lift (lookup kitchen_packages kname)) (\<lambda>krng.
               bnd (choose_quality G) (\<lambda>kquality.
               bnd (lift (lookup quality_tiers kquality)) (\<lambda>kq.
               bnd (unit_cost G krng kq m) (\<lambda>kcost.
               ret (kname, kcost))))))
          else ret (''None'', 0.0))
     (\<lambda>x. 0 \<le> snd x \<and> (rt \<noteq> ''Kitchen'' \<longrightarrow> fst x = ''None'' \<and> snd x = 0))"
proof (cases "rt = ''Kitchen''")
  case True
  have "succeeds (bnd (kitchen_package_by_level G lvl) (\<lambda>kname.
               bnd (lift (lookup kitchen_packages kname)) (\<lambda>krng.
               bnd (choose_quality G) (\<lambda>kquality.
               bnd (lift (lookup quality_tiers kquality)) (\<lambda>kq.
               bnd (unit_cost G krng kq m) (\<lambda>kcost.
               ret (kname, kcost))))))) (\<lambda>x. 0 \<le> snd x)"
    apply (rule succeeds_bnd [OF succeeds_kitchen_package_by_level [OF assms(1)]])
    apply (rule succeeds_bnd [OF succeeds_lookup], assumption)
    apply (rule succeeds_bnd [OF succeeds_choose_quality [OF assms(1)]])
    apply (rule succeeds_bnd [OF succeeds_quality_factor], assumption)
    apply (rule succeeds_bnd [OF succeeds_unit_cost [OF assms(1)]])
       apply (simp add: kitchen_packages_ok)
      apply simp
     apply (rule assms(2))
    apply (simp add: succeeds_ret)
    done
  with True show ?thesis by simp
next
  case False
  then show ?thesis by (simp add: succeeds_ret)
qed

lemma succeeds_bath_pkg:
  assumes "prng_ok G" and "0 \<le> m"
  shows "succeeds (if rt = ''Bathroom''
          then bnd (bathroom_package_by_level G lvl) (\<lambda>bname.
               bnd (lift (lookup bathroom_packages bname)) (\<lambda>brng.
               bnd (choose_quality G) (\<lambda>bquality.
               bnd (lift (lookup quality_tiers bquality)) (\<lambda>bq.
               bnd (unit_cost G brng bq m) (\<lambda>bcost.
               ret (bname, bcost))))))
          else ret (''None'', 0.0))
     (\<lambda>x. 0 \<le> snd x \<and> (rt \<noteq> ''Bathroom'' \<longrightarrow> fst x = ''None'' \<and> snd x = 0))"
proof (cases "rt = ''Bathroom''")
  case True
  have "succeeds (bnd (bathroom_package_by_level G lvl) (\<lambda>bname.
               bnd (lift (lookup bathroom_packages bname)) (\<lambda>brng.
               bnd (choose_quality G) (\<lambda>bquality.
               bnd (lift (lookup quality_tiers bquality)) (\<lambda>bq.
               bnd (unit_cost G brng bq m) (\<lambda>bcost.
               ret (bname, bcost))))))) (\<lambda>x. 0 \<le> snd x)"
    apply (rule succeeds_bnd [OF succeeds_bathroom_package_by_level [OF assms(1)]])
    apply (rule succeeds_bnd [OF succeeds_lookup], assumption)
    apply (rule succeeds_bnd [OF succeeds_choose_quality [OF assms(1)]])
    apply (rule succeeds_bnd [OF succeeds_quality_factor], assumption)
    apply (rule succeeds_bnd [OF succeeds_unit_cost [OF assms(1)]])
       apply (simp add: bathroom_packages_ok)
      apply simp
     apply (rule assms(2))
    apply (simp add: succeeds_ret)
    done
  with True show ?thesis by simp
next
  case False
  then show ?thesis by (simp add: succeeds_ret)
qed

lemma succeeds_plumbing_kitchen:
  assumes "prng_ok G" and "0 \<le> m"
  shows "succeeds (if rt = ''Kitchen''
          then bnd (unit_cost G plumbing_per_kitchen 1.0 m) (\<lambda>c. ret (0.0 + c))
          else ret 0.0) (\<lambda>c. 0 \<le> c)"
proof (cases "rt = ''Kitchen''")
  case True
  have "succeeds (bnd (unit_cost G plumbing_per_kitchen 1.0 m) (\<lambda>c. ret (0.0 + c))) (\<lambda>c. 0 \<le> c)"
    apply (rule succeeds_bnd [OF succeeds_unit_cost [OF assms(1)]])
       apply (simp_all add: range_ok_def plumbing_per_kitchen_def assms(2) succeeds_ret)
    done
  with True show ?thesis by simp
next
  case False
  then show ?thesis by (simp add: succeeds_ret)
qed

lemma succeeds_plumbing_bath:
  assumes "prng_ok G" and "0 \<le> m" and "0 \<le> p"
  shows "succeeds (if rt = ''Bathroom''
          then bnd (unit_cost G plumbing_per_bath 1.0 m) (\<lambda>c. ret (p + c))
          else ret p) (\<lambda>c. 0 \<le> c)"
proof (cases "rt = ''Bathroom''")
  case True
  have "succeeds (bnd (unit_cost G plumbing_per_bath 1.0 m) (\<lambda>c. ret (p + c))) (\<lambda>c. 0 \<le> c)"
    apply (rule succeeds_bnd [OF succeeds_unit_cost [OF assms(1)]])
       apply (simp_all add: range_ok_def plumbing_per_bath_def assms(2,3) succeeds_ret)
    done
  with True show ?thesis by simp
next
  case False
  then show ?thesis by (simp add: succeeds_ret assms(3))
qed

lemma succeeds_furniture_cost:
  assumes "prng_ok G" and "lv \<in> set (keys furniture_room)" and "0 \<le> m"
  shows "succeeds (if lv \<noteq> ''None''
          then bnd (lift (lookup furniture_room lv)) (\<lambda>frng. unit_cost G frng 1.0 m)
          else ret 0.0) (\<lambda>c. 0 \<le> c)"
proof (cases "lv \<noteq> ''None''")
  case True
  have "succeeds (bnd (lift (lookup furniture_room lv)) (\<lambda>frng. unit_cost G frng 1.0 m))
     (\<lambda>c. 0 \<le> c)"
    apply (rule succeeds_bnd [OF succeeds_lookup [OF assms(2)]])
    apply (rule succeeds_unit_cost [OF assms(1)])
      apply (simp_all add: furniture_room_ok assms(3))
    done
  with True show ?thesis by simp
next
  case False
  then show ?thesis by (simp add: succeeds_ret)
qed

lemma succeeds_wastage:
  assumes "prng_ok G"
  shows "succeeds (rand_range G 0.05 0.10) (\<lambda>w. 0 \<le> w)"
  by (rule succeeds_weaken [OF succeeds_rand_range [OF assms]]) simp_all

lemma generate_row_locals_ok:
  assumes G: "prng_ok G"
  shows "succeeds (generate_row_locals G) locals_ok"
  unfolding generate_row_locals_def Let_def
  apply (rule succeeds_bnd [OF succeeds_choice [OF G]])
   apply (simp add: city_names_def cities_def keys_def)
  apply (rule succeeds_bnd [OF succeeds_city_info], assumption)
  apply (rule succeeds_bnd [OF succeeds_choice [OF G]])
   apply (simp add: room_types_def)
  apply (rule succeeds_bnd [OF succeeds_area [OF G]])
  apply (rule succeeds_bnd [OF succeeds_choice [OF G]])
   apply (simp add: renovation_levels_def keys_def)
  apply (rule succeeds_bnd [OF succeeds_lookup], assumption)
  apply (rule succeeds_bnd [OF succeeds_overhead [OF G]])
   apply (simp add: renovation_levels_ok)
  apply (rule succeeds_bnd [OF succeeds_choose_quality [OF G]])
  apply (rule succeeds_bnd [OF succeeds_choose_quality [OF G]])
  apply (rule succeeds_bnd [OF succeeds_choose_quality [OF G]])
  apply (rule succeeds_bnd [OF succeeds_quality_factor], assumption)
  apply (rule succeeds_bnd [OF succeeds_psf_cost [OF G]])
     apply (simp add: range_ok_def painting_psf_def)
    apply simp
   apply (simp add: city_ok_def)
  apply (rule succeeds_bnd [OF succeeds_labor_component_cost [OF G]])
   apply simp
  apply (rule succeeds_bnd [OF succeeds_choose_flooring_type [OF G]])
  apply (rule succeeds_bnd [OF succeeds_lookup], assumption)
  apply (rule succeeds_bnd [OF succeeds_quality_factor], assumption)
  apply (rule succeeds_bnd [OF succeeds_psf_cost [OF G]])
     apply (simp add: flooring_catalog_ok)
    apply simp
   apply (simp add: city_ok_def)
  apply (rule succeeds_bnd [OF succeeds_labor_component_cost [OF G]])
   apply simp
  apply (rule succeeds_bnd [OF succeeds_has_ceiling [OF G]])
  apply (rule succeeds_bnd [OF succeeds_ceiling_type [OF G]])
  apply (rule succeeds_bnd [OF succeeds_ceiling_area [OF G]])
   apply simp
  apply (rule succeeds_bnd [OF succeeds_ceiling_rate [OF G]])
     apply assumption
    apply assumption
   apply (simp add: city_ok_def)
  apply (rule succeeds_bnd [OF succeeds_opt_labor [OF G]])
   apply simp
  apply (rule succeeds_bnd [OF succeeds_random [OF G]])
  apply (rule succeeds_bnd [OF succeeds_electrical_prob], assumption)
  apply (rule succeeds_bnd [OF succeeds_electrical_rate [OF G]])
   apply (simp add: city_ok_def)
  apply (rule succeeds_bnd [OF succeeds_opt_labor [OF G]])
   apply simp
  apply (rule succeeds_bnd [OF succeeds_kitchen_pkg [OF G]])
   apply (simp add: city_ok_def)
  apply (simp only: split_paired_all prod.case fst_conv snd_conv)
  apply (rule succeeds_bnd [OF succeeds_bath_pkg [OF G]])
   apply (simp add: city_ok_def)
  apply (simp only: split_paired_all prod.case fst_conv snd_conv)
  apply (rule succeeds_bnd [OF succeeds_plumbing_kitchen [OF G]])
   apply (simp add: city_ok_def)
  apply (rule succeeds_bnd [OF succeeds_plumbing_bath [OF G]])
    apply (simp add: city_ok_def)
   apply simp
  apply (rule succeeds_bnd [OF succeeds_choose_furniture_level [OF G]])
  apply (rule succeeds_bnd [OF succeeds_furniture_cost [OF G]])
    apply simp
   apply (simp add: city_ok_def)
  apply (rule succeeds_bnd [OF succeeds_wastage [OF G]])
  apply (rule succeeds_ret)
  apply (simp add: locals_ok_def)
  done

lemma emit_row_ok:
  "lookup cities (city l) = Inr c \<Longrightarrow> emit_row idx l s = Inr (row_dict idx l c c, s)"
  by (simp add: emit_row_def bnd_def lift_def ret_def)

lemma generate_row_run:
  assumes "prng_ok G"
  obtains l s' where "generate_row_locals G s = Inr (l, s')" and "locals_ok l"
    and "generate_row G idx s = Inr (row_dict idx l (cinfo l) (cinfo l), s')"
proof -
  from generate_row_locals_ok [OF assms] obtain l s'
    where l: "generate_row_locals G s = Inr (l, s')" "locals_ok l"
    unfolding succeeds_def by blast
  from l(2) have "lookup cities (city l) = Inr (cinfo l)" by (simp add: locals_ok_def)
  from emit_row_ok [OF this] l(1)
  have "generate_row G idx s = Inr (row_dict idx l (cinfo l) (cinfo l), s')"
    by (simp add: generate_row_def bnd_def)
  with l that show thesis by blast
qed

subsection \<open>Rows and claims\<close>

lemma scripted_bedroom_run:
  "generate_row scripted 1 ([], []) = Inr (bedroom_row, ([], []))"
  by (simp add: model_eval fl_eval bedroom_row_def)

lemma scripted_bathroom_run:
  "generate_row scripted 1 ([], [0, 3]) = Inr (bathroom_row, ([], []))"
  by (simp add: model_eval fl_eval bathroom_row_def)

lemma py_round_close: "\<bar>of_int (py_round x) - x\<bar> \<le> 1 / 2"
  unfolding py_round_def Let_def by (auto simp: abs_le_iff)

lemma py_round_diff:
  assumes "\<bar>x - y\<bar> < 1"
  shows "\<bar>py_round x - py_round y\<bar> \<le> 1"
proof -
  have "\<bar>real_of_int (py_round x) - real_of_int (py_round y)\<bar> < 2"
    using py_round_close [of x] py_round_close [of y] assms by linarith
  then have "\<bar>real_of_int (py_round x - py_round y)\<bar> < real_of_int 2" by simp
  then have "\<bar>py_round x - py_round y\<bar> < 2"
    by (metis of_int_abs of_int_less_iff)
  then show ?thesis by simp
qed

text \<open>
  Claim C1. For every generated row, the emitted \<open>Grand_Total\<close> is the rounding of
  \<open>subtotal_pre_tax + gst_amount\<close>, where \<open>subtotal_pre_tax\<close> is
  \<open>material_subtotal + wastage_cost + labor_subtotal + contractor_overhead\<close>,
  \<open>material_subtotal\<close> is the sum of the eight unrounded material-side components,
  \<open>labor_subtotal\<close> the sum of the four unrounded labour components, and \<open>gst_amount\<close> is
  \<open>subtotal_pre_tax * GST_RATE\<close> when \<open>INCLUDE_GST\<close> holds and 0 otherwise. The
  unrounded components are the ones the emitted cost fields are the roundings of.
\<close>

theorem grand_total_composition:
  assumes "prng_ok G"
  shows "\<exists>l s' r. generate_row_locals G s = Inr (l, s') \<and> generate_row G idx s = Inr (r, s') \<and>
    Grand_Total r = py_round (subtotal_pre_tax l + gst_amount l) \<and>
    subtotal_pre_tax l =
      material_subtotal l + wastage_cost l + labor_subtotal l + contractor_overhead l \<and>
    material_subtotal l =
      painting_material_cost l + flooring_material_cost l + ceiling_material_cost l +
      electrical_material_cost l + kitchen_pkg_cost l + bath_pkg_cost l + plumbing_cost l +
      furniture_cost l \<and>
    labor_subtotal l =
      painting_labor_cost l + flooring_labor_cost l + ceiling_labor_cost l +
      electrical_labor_cost l \<and>
    gst_amount l = (if INCLUDE_GST then subtotal_pre_tax l * GST_RATE else 0) \<and>
    Painting_Material_Cost r = py_round (painting_material_cost l) \<and>
    Flooring_Material_Cost r = py_round (flooring_material_cost l) \<and>
    Ceiling_Material_Cost r = py_round (ceiling_material_cost l) \<and>
    Electrical_Material_Cost r = py_round (electrical_material_cost l) \<and>
    Kitchen_Package_Cost r = py_round (kitchen_pkg_cost l) \<and>
    Bathroom_Package_Cost r = py_round (bath_pkg_cost l) \<and>
    Plumbing_Cost r = py_round (plumbing_cost l) \<and>
    Furniture_Cost r = py_round (furniture_cost l) \<and>
    Painting_Labor_Cost r = py_round (painting_labor_cost l) \<and>
    Flooring_Labor_Cost r = py_round (flooring_labor_cost l) \<and>
    Ceiling_Labor_Cost r = py_round (ceiling_labor_cost l) \<and>
    Electrical_Labor_Cost r = py_round (electrical_labor_cost l) \<and>
    Wastage_Sundries_Cost r = py_round (wastage_cost l) \<and>
    Contractor_Overhead_Cost r = py_round (contractor_overhead l) \<and>
    GST_Amount r = py_round (gst_amount l)"
proof -
  from generate_row_run [OF assms, of s idx] obtain l s'
    where l: "generate_row_locals G s = Inr (l, s')" "locals_ok l"
      "generate_row G idx s = Inr (row_dict idx l (cinfo l) (cinfo l), s')"
    by blast
  from l(2) have
    "Grand_Total (row_dict idx l (cinfo l) (cinfo l)) = py_round (subtotal_pre_tax l + gst_amount l)"
    by (simp add: row_dict_def locals_ok_def)
  with l show ?thesis
    apply (intro exI [of _ l] exI [of _ s'] exI [of _ "row_dict idx l (cinfo l) (cinfo l)"])
    apply (simp add: locals_ok_def)
    apply (simp add: row_dict_def)
    done
qed

theorem grand_total_composition_witness:
  "\<exists>l s'. generate_row_locals scripted ([], []) = Inr (l, s') \<and>
     generate_row scripted 1 ([], []) = Inr (bedroom_row, s') \<and>
     Grand_Total bedroom_row = py_round (subtotal_pre_tax l + gst_amount l) \<and>
     Grand_Total bedroom_row = 30339"
  using grand_total_composition [OF prng_ok_scripted, of "([], [])" 1] scripted_bedroom_run
  by (auto simp: bedroom_row_def)

text \<open>
  Claim C4. For every generated row whose room type is not Kitchen, the kitchen package
  cost is 0 and the kitchen package is \<open>None\<close>; and likewise for Bathroom and the bathroom
  package.
\<close>

theorem package_only_for_its_room:
  assumes "prng_ok G"
  shows "\<exists>r s'. generate_row G idx s = Inr (r, s') \<and>
    (Room_Type r \<noteq> ''Kitchen'' \<longrightarrow> Kitchen_Package_Cost r = 0 \<and> Kitchen_Package r = ''None'') \<and>
    (Room_Type r \<noteq> ''Bathroom'' \<longrightarrow> Bathroom_Package_Cost r = 0 \<and> Bathroom_Package r = ''None'')"
proof -
  from generate_row_run [OF assms, of s idx] obtain l s'
    where l: "locals_ok l"
      "generate_row G idx s = Inr (row_dict idx l (cinfo l) (cinfo l), s')"
    by blast
  have "py_round 0 = 0" by (simp add: py_round_def)
  with l show ?thesis by (auto simp: row_dict_def locals_ok_def)
qed

theorem package_only_for_its_room_witness:
  "generate_row scripted 1 ([], []) = Inr (bedroom_row, ([], [])) \<and>
   Room_Type bedroom_row \<noteq> ''Kitchen'' \<and> Room_Type bedroom_row \<noteq> ''Bathroom'' \<and>
   Kitchen_Package_Cost bedroom_row = 0 \<and> Kitchen_Package bedroom_row = ''None'' \<and>
   Bathroom_Package_Cost bedroom_row = 0 \<and> Bathroom_Package bedroom_row = ''None''"
  using package_only_for_its_room [OF prng_ok_scripted, of 1 "([], [])"] scripted_bedroom_run
  by (auto simp: bedroom_row_def)

text \<open>
  Claim C5. For every generated row whose room type is Bathroom, no false ceiling is
  applied: both ceiling costs are 0 and the ceiling type and quality are \<open>None\<close>.
\<close>

theorem bathroom_has_no_ceiling:
  assumes "prng_ok G"
  shows "\<exists>r s'. generate_row G idx s = Inr (r, s') \<and>
    (Room_Type r = ''Bathroom'' \<longrightarrow>
       Ceiling_Material_Cost r = 0 \<and> Ceiling_Labor_Cost r = 0 \<and>
       Ceiling_Type r = ''None'' \<and> Ceiling_Quality r = ''None'')"
proof -
  from generate_row_run [OF assms, of s idx] obtain l s'
    where l: "locals_ok l"
      "generate_row G idx s = Inr (row_dict idx l (cinfo l) (cinfo l), s')"
    by blast
  have "py_round 0 = 0" by (simp add: py_round_def)
  with l show ?thesis by (auto simp: row_dict_def locals_ok_def)
qed

theorem bathroom_has_no_ceiling_witness:
  "generate_row scripted 1 ([], [0, 3]) = Inr (bathroom_row, ([], [])) \<and>
   Room_Type bathroom_row = ''Bathroom'' \<and>
   Ceiling_Material_Cost bathroom_row = 0 \<and> Ceiling_Labor_Cost bathroom_row = 0 \<and>
   Ceiling_Type bathroom_row = ''None'' \<and> Ceiling_Quality bathroom_row = ''None''"
  using bathroom_has_no_ceiling [OF prng_ok_scripted, of 1 "([], [0, 3])"] scripted_bathroom_run
  by (auto simp: bathroom_row_def)

text \<open>
  Claim C7, as stated, fails: \<open>Area_Sqft\<close> is not always below 550. When the draw of
  the area returns the largest double below 1, which is \<open>1 - 2 ^ -53\<close>, the product
  \<open>480 * u\<close> rounds to \<open>480 - 2 ^ -44\<close>, and the sum \<open>70 + (480 - 2 ^ -44)\<close> lies halfway
  between two doubles and rounds to \<open>550.0\<close>: the row has \<open>Area_Sqft = 550\<close>.
\<close>

theorem area_reaches_550:
  "map_sum id (Area_Sqft \<circ> fst) (generate_row scripted 1 ([1 - 1 / 2 ^ 53], [])) = Inr 550"
  by (simp add: model_eval fl_eval)

text \<open>
  Claim C7, amended. For every generated row, \<open>Area_Sqft\<close> is an integer with
  \<open>70 \<le> Area_Sqft \<le> 550\<close>.
\<close>

theorem area_in_range:
  assumes "prng_ok G"
  shows "\<exists>r s'. generate_row G idx s = Inr (r, s') \<and> 70 \<le> Area_Sqft r \<and> Area_Sqft r \<le> 550"
proof -
  from generate_row_run [OF assms, of s idx] obtain l s'
    where l: "locals_ok l"
      "generate_row G idx s = Inr (row_dict idx l (cinfo l) (cinfo l), s')"
    by blast
  then show ?thesis by (auto simp: row_dict_def locals_ok_def)
qed

theorem area_in_range_witness:
  "generate_row scripted 1 ([], []) = Inr (bedroom_row, ([], [])) \<and>
   Area_Sqft bedroom_row = 70 \<and> 70 \<le> Area_Sqft bedroom_row \<and> Area_Sqft bedroom_row \<le> 550"
  using area_in_range [OF prng_ok_scripted, of 1 "([], [])"] scripted_bedroom_run
  by (auto simp: bedroom_row_def)

text \<open>
  Claim C10. For every generated row, the tier, the multiplier and the two bounds of the
  labour day rate are those the table \<open>cities\<close> holds for the row's city.
\<close>

theorem city_fields_consistent:
  assumes "prng_ok G"
  shows "\<exists>r s' c. generate_row G idx s = Inr (r, s') \<and> lookup cities (City r) = Inr c \<and>
    City_Tier r = tier c \<and> City_Multiplier r = multiplier c \<and>
    Labor_Day_Rate_Min r = fst (labor_day_rate c) \<and>
    Labor_Day_Rate_Max r = snd (labor_day_rate c)"
proof -
  from generate_row_run [OF assms, of s idx] obtain l s'
    where l: "locals_ok l"
      "generate_row G idx s = Inr (row_dict idx l (cinfo l) (cinfo l), s')"
    by blast
  then show ?thesis by (auto simp: row_dict_def locals_ok_def)
qed

theorem city_fields_consistent_witness:
  "generate_row scripted 1 ([], []) = Inr (bedroom_row, ([], [])) \<and>
   lookup cities (City bedroom_row) =
     Inr \<lparr>tier = ''Metro'', multiplier = 1.2, labor_day_rate = (750, 900)\<rparr> \<and>
   City_Tier bedroom_row = ''Metro'' \<and> City_Multiplier bedroom_row = 1.2 \<and>
   Labor_Day_Rate_Min bedroom_row = 750 \<and> Labor_Day_Rate_Max bedroom_row = 900"
  using city_fields_consistent [OF prng_ok_scripted, of 1 "([], [])"] scripted_bedroom_run
  by (auto simp: bedroom_row_def cities_def lookup_def)

text \<open>
  Claim C6. For every generated row, every cost field is at least 0: the material and
  labour costs, the package costs, plumbing, furniture, wastage, contractor overhead, GST,
  the grand total and the cost per square foot.
\<close>

theorem cost_fields_nonnegative:
  assumes "prng_ok G"
  shows "\<exists>r s'. generate_row G idx s = Inr (r, s') \<and>
    0 \<le> Painting_Material_Cost r \<and> 0 \<le> Painting_Labor_Cost r \<and>
    0 \<le> Flooring_Material_Cost r \<and> 0 \<le> Flooring_Labor_Cost r \<and>
    0 \<le> Ceiling_Material_Cost r \<and> 0 \<le> Ceiling_Labor_Cost r \<and>
    0 \<le> Electrical_Material_Cost r \<and> 0 \<le> Electrical_Labor_Cost r \<and>
    0 \<le> Kitchen_Package_Cost r \<and> 0 \<le> Bathroom_Package_Cost r \<and>
    0 \<le> Plumbing_Cost r \<and> 0 \<le> Furniture_Cost r \<and>
    0 \<le> Wastage_Sundries_Cost r \<and> 0 \<le> Contractor_Overhead_Cost r \<and>
    0 \<le> GST_Amount r \<and> 0 \<le> Grand_Total r \<and> 0 \<le> Total_Cost_per_Sqft r"
proof -
  from generate_row_run [OF assms, of s idx] obtain l s'
    where ok: "locals_ok l"
      and r: "generate_row G idx s = Inr (row_dict idx l (cinfo l) (cinfo l), s')"
    by blast
  from ok have base:
    "0 \<le> painting_material_cost l" "0 \<le> painting_labor_cost l"
    "0 \<le> flooring_material_cost l" "0 \<le> flooring_labor_cost l"
    "0 \<le> ceiling_material_cost l" "0 \<le> ceiling_labor_cost l"
    "0 \<le> electrical_material_cost l" "0 \<le> electrical_labor_cost l"
    "0 \<le> kitchen_pkg_cost l" "0 \<le> bath_pkg_cost l"
    "0 \<le> plumbing_cost l" "0 \<le> furniture_cost l"
    "0 \<le> wastage_pct l" "0 \<le> labor_overhead_pct l" "70 \<le> area l"
    by (simp_all add: locals_ok_def)
  from ok base have mat: "0 \<le> material_subtotal l" by (simp add: locals_ok_def)
  from ok base have lab: "0 \<le> labor_subtotal l" by (simp add: locals_ok_def)
  from ok mat base have was: "0 \<le> wastage_cost l" by (simp add: locals_ok_def)
  from ok mat lab base have ovh: "0 \<le> contractor_overhead l" by (simp add: locals_ok_def)
  from ok mat lab was ovh have sub: "0 \<le> subtotal_pre_tax l" by (simp add: locals_ok_def)
  from ok sub have gst: "0 \<le> gst_amount l" by (simp add: locals_ok_def GST_RATE_def)
  from ok sub gst have tot: "0 \<le> grand_total l" by (simp add: locals_ok_def)
  from ok tot base have psf: "0 \<le> total_psf l" by (simp add: locals_ok_def)
  show ?thesis
    apply (intro exI [of _ "row_dict idx l (cinfo l) (cinfo l)"] exI [of _ s'])
    apply (simp add: r row_dict_def py_round_nonneg round_ndigits_nonneg
        base mat lab was ovh sub gst tot psf)
    done
qed

theorem cost_fields_nonnegative_witness:
  "generate_row scripted 1 ([], [0, 3]) = Inr (bathroom_row, ([], [])) \<and>
   0 \<le> Bathroom_Package_Cost bathroom_row \<and> 0 \<le> Plumbing_Cost bathroom_row \<and>
   0 \<le> Grand_Total bathroom_row \<and> 0 \<le> Total_Cost_per_Sqft bathroom_row"
  using cost_fields_nonnegative [OF prng_ok_scripted, of 1 "([], [0, 3])"] scripted_bathroom_run
  by (auto simp: bathroom_row_def)

lemma scaled_close:
  fixes a g G :: real
  assumes "70 \<le> a" and "\<bar>g - G\<bar> \<le> 1 / 2"
  shows "\<bar>g / a * 10 ^ 2 - G / a * 10 ^ 2\<bar> < 1"
proof -
  from assms(1) have pos: "0 < a" by simp
  have "g / a * 10 ^ 2 - G / a * 10 ^ 2 = (g - G) * (100 / a)"
    using pos by (simp add: field_simps)
  then have "\<bar>g / a * 10 ^ 2 - G / a * 10 ^ 2\<bar> = \<bar>(g - G) * (100 / a)\<bar>"
    by (simp only:)
  also have "\<dots> = \<bar>g - G\<bar> * (100 / a)"
    using pos by (simp only: abs_mult) simp
  also have "\<dots> \<le> (1 / 2) * (100 / a)"
    using assms(2) pos by (intro mult_right_mono) simp_all
  also have "\<dots> < 1" using assms(1) by (simp add: field_simps)
  finally show ?thesis .
qed

text \<open>
  Claim C2, as stated, fails: the emitted \<open>Total_Cost_per_Sqft\<close> is not the emitted
  \<open>Grand_Total\<close> divided by \<open>Area_Sqft\<close> and rounded to 2 places. With every draw 0 the
  unrounded grand total is 30339.216 on an area of 70: the row carries 433.42, while
  \<open>round(30339 / 70, 2)\<close> is 433.41.
\<close>

theorem cost_per_sqft_counterexample:
  "generate_row scripted 1 ([], []) = Inr (bedroom_row, ([], [])) \<and>
   1 \<le> Area_Sqft bedroom_row \<and>
   Total_Cost_per_Sqft bedroom_row = 433.42 \<and>
   round_ndigits (of_int (Grand_Total bedroom_row) / of_int (Area_Sqft bedroom_row)) 2 = 433.41 \<and>
   Total_Cost_per_Sqft bedroom_row \<noteq>
     round_ndigits (of_int (Grand_Total bedroom_row) / of_int (Area_Sqft bedroom_row)) 2"
  using scripted_bedroom_run
  by (simp add: bedroom_row_def round_ndigits_def py_round_def)

text \<open>
  Claim C2, amended. For every generated row, \<open>Area_Sqft\<close> is at least 1 and
  \<open>Total_Cost_per_Sqft\<close> is the unrounded grand total divided by \<open>Area_Sqft\<close>, rounded to
  2 places; it differs from \<open>round(Grand_Total / Area_Sqft, 2)\<close> by at most 0.01.
\<close>

theorem cost_per_sqft_from_unrounded_total:
  assumes "prng_ok G"
  shows "\<exists>l s' r. generate_row_locals G s = Inr (l, s') \<and> generate_row G idx s = Inr (r, s') \<and>
    1 \<le> Area_Sqft r \<and>
    Grand_Total r = py_round (grand_total l) \<and>
    Total_Cost_per_Sqft r = round_ndigits (grand_total l / of_int (Area_Sqft r)) 2 \<and>
    \<bar>Total_Cost_per_Sqft r -
       round_ndigits (of_int (Grand_Total r) / of_int (Area_Sqft r)) 2\<bar> \<le> 1 / 100"
proof -
  from generate_row_run [OF assms, of s idx] obtain l s'
    where run: "generate_row_locals G s = Inr (l, s')"
      and ok: "locals_ok l"
      and r: "generate_row G idx s = Inr (row_dict idx l (cinfo l) (cinfo l), s')"
    by blast
  let ?r = "row_dict idx l (cinfo l) (cinfo l)"
  let ?a = "real_of_int (area l)"
  let ?g = "grand_total l"
  let ?G = "real_of_int (py_round ?g)"
  from ok have a: "70 \<le> area l" by (simp add: locals_ok_def)
  from ok a have psf: "total_psf l = ?g / ?a" by (simp add: locals_ok_def)
  from a have a70: "70 \<le> ?a" by simp
  have "\<bar>?g / ?a * 10 ^ 2 - ?G / ?a * 10 ^ 2\<bar> < 1"
    by (rule scaled_close [OF a70]) (use py_round_close [of ?g] in \<open>simp add: abs_minus_commute\<close>)
  from py_round_diff [OF this]
  have "\<bar>real_of_int (py_round (?g / ?a * 10 ^ 2) - py_round (?G / ?a * 10 ^ 2))\<bar> \<le> 1"
    by (metis of_int_abs of_int_le_iff of_int_1)
  then have "\<bar>round_ndigits (?g / ?a) 2 - round_ndigits (?G / ?a) 2\<bar> \<le> 1 / 100"
    by (simp add: round_ndigits_def diff_divide_distrib [symmetric])
  with a psf show ?thesis
    apply (intro exI [of _ l] exI [of _ s'] exI [of _ ?r])
    apply (simp add: run r row_dict_def)
    done
qed

theorem cost_per_sqft_from_unrounded_total_witness:
  "\<exists>l s'. generate_row_locals scripted ([], []) = Inr (l, s') \<and>
     generate_row scripted 1 ([], []) = Inr (bedroom_row, s') \<and>
     Total_Cost_per_Sqft bedroom_row = round_ndigits (grand_total l / 70) 2 \<and>
     \<bar>Total_Cost_per_Sqft bedroom_row -
        round_ndigits (of_int (Grand_Total bedroom_row) / of_int (Area_Sqft bedroom_row)) 2\<bar>
       \<le> 1 / 100"
  using cost_per_sqft_from_unrounded_total [OF prng_ok_scripted, of "([], [])" 1]
    scripted_bedroom_run
  by (auto simp: bedroom_row_def)

lemma generate_rows_chain:
  assumes "prng_ok G"
  shows "\<exists>rs ss. generate_rows G idxs s = Inr (rs, last ss) \<and>
    length rs = length idxs \<and> length ss = length idxs + 1 \<and> ss ! 0 = s \<and>
    (\<forall>k < length idxs. generate_row G (idxs ! k) (ss ! k) = Inr (rs ! k, ss ! Suc k)) \<and>
    map Row_ID rs = idxs"
proof (induction idxs arbitrary: s)
  case Nil
  show ?case by (rule exI [of _ "[]"], rule exI [of _ "[s]"]) (simp add: ret_def)
next
  case (Cons i idxs)
  from generate_row_run [OF assms, of s i] obtain l t
    where r: "generate_row G i s = Inr (row_dict i l (cinfo l) (cinfo l), t)"
    by blast
  let ?r = "row_dict i l (cinfo l) (cinfo l)"
  from Cons.IH [of t] obtain rs ss
    where rs: "generate_rows G idxs t = Inr (rs, last ss)"
      and len: "length rs = length idxs" "length ss = length idxs + 1"
      and hd: "ss ! 0 = t"
      and chain: "\<forall>k < length idxs. generate_row G (idxs ! k) (ss ! k) = Inr (rs ! k, ss ! Suc k)"
      and ids: "map Row_ID rs = idxs"
    by blast
  from len(2) have ne: "ss \<noteq> []" by auto
  have id: "Row_ID ?r = i" by (simp add: row_dict_def)
  have run: "generate_rows G (i # idxs) s = Inr (?r # rs, last (s # ss))"
    using r rs ne by (simp add: bnd_def ret_def)
  have step: "\<forall>k < length (i # idxs).
      generate_row G ((i # idxs) ! k) ((s # ss) ! k) = Inr ((?r # rs) ! k, (s # ss) ! Suc k)"
  proof (intro allI impI)
    fix k
    assume k: "k < length (i # idxs)"
    show "generate_row G ((i # idxs) ! k) ((s # ss) ! k) = Inr ((?r # rs) ! k, (s # ss) ! Suc k)"
    proof (cases k)
      case 0
      with r hd show ?thesis by simp
    next
      case (Suc j)
      with k chain show ?thesis by simp
    qed
  qed
  have rest: "length (?r # rs) = length (i # idxs)" "length (s # ss) = length (i # idxs) + 1"
    "(s # ss) ! 0 = s" "map Row_ID (?r # rs) = i # idxs"
    using len id ids by simp_all
  show ?case
    by (rule exI [of _ "?r # rs"], rule exI [of _ "s # ss"]) (insert run rest step, blast)
qed

lemma rows_chain:
  assumes "prng_ok G"
  shows "\<exists>rs ss. rows G n s = Inr (rs, last ss) \<and> length rs = nat n \<and>
    length ss = nat n + 1 \<and> ss ! 0 = s \<and>
    (\<forall>k < nat n. generate_row G (1 + int k) (ss ! k) = Inr (rs ! k, ss ! Suc k)) \<and>
    map Row_ID rs = [1..n]"
proof -
  from generate_rows_chain [OF assms, of "[1..n]" s] obtain rs ss
    where rs: "generate_rows G [1..n] s = Inr (rs, last ss)"
      and len: "length rs = length [1..n]" "length ss = length [1..n] + 1"
      and hd: "ss ! 0 = s"
      and chain: "\<forall>k < length [1..n].
        generate_row G ([1..n] ! k) (ss ! k) = Inr (rs ! k, ss ! Suc k)"
      and ids: "map Row_ID rs = [1..n]"
    by blast
  have step: "\<forall>k < nat n. generate_row G (1 + int k) (ss ! k) = Inr (rs ! k, ss ! Suc k)"
  proof (intro allI impI)
    fix k
    assume "k < nat n"
    then have "k < length [1..n]" and "[1..n] ! k = 1 + int k" by simp_all
    with chain show "generate_row G (1 + int k) (ss ! k) = Inr (rs ! k, ss ! Suc k)" by metis
  qed
  have run: "rows G n s = Inr (rs, last ss)"
    using rs by (simp add: rows_def py_range_def)
  have rest: "length rs = nat n" "length ss = nat n + 1"
    using len by simp_all
  show ?thesis
    by (rule exI [of _ rs], rule exI [of _ ss]) (insert run rest hd step ids, blast)
qed

text \<open>
  Claim C8. The assembled dataset has exactly \<open>N\<close> records (10000 by default), produced
  by calling the row generator on the indices \<open>1..N\<close> in increasing order, and the
  \<open>Row_ID\<close>s of the records, in order, are exactly \<open>1..N\<close>: no gap, no duplicate. The
  order of the calls shows in the generator states \<open>ss\<close>: record \<open>k\<close> (counted from 0)
  is what \<open>generate_row\<close> returns for the index \<open>k + 1\<close> from the state that the call
  before it left, the first call starting from the state the assembly starts in.
\<close>

theorem dataset_has_n_rows_in_order:
  assumes "prng_ok G"
  shows "(\<exists>rs ss. rows G n s = Inr (rs, last ss) \<and> length rs = nat n \<and>
            length ss = nat n + 1 \<and> ss ! 0 = s \<and>
            (\<forall>k < nat n. generate_row G (1 + int k) (ss ! k) = Inr (rs ! k, ss ! Suc k)) \<and>
            map Row_ID rs = [1..n] \<and> distinct (map Row_ID rs) \<and>
            sorted_wrt (<) (map Row_ID rs)) \<and>
         (\<exists>rs. run G seed N_ROWS = Inr rs \<and> length rs = 10000 \<and>
            map Row_ID rs = [1..N_ROWS])"
proof -
  from rows_chain [OF assms, of n s] obtain rs ss
    where 1: "rows G n s = Inr (rs, last ss)" "length rs = nat n" "length ss = nat n + 1"
      "ss ! 0 = s"
      "\<forall>k < nat n. generate_row G (1 + int k) (ss ! k) = Inr (rs ! k, ss ! Suc k)"
      "map Row_ID rs = [1..n]"
    by blast
  from 1(6) have 2: "distinct (map Row_ID rs)" "sorted_wrt (<) (map Row_ID rs)" by simp_all
  from rows_chain [OF assms, of N_ROWS "rng_seed G seed"] obtain rs' ss'
    where A: "rows G N_ROWS (rng_seed G seed) = Inr (rs', last ss')"
      and B: "length rs' = nat N_ROWS"
      and C: "map Row_ID rs' = [1..N_ROWS]"
    by blast
  from A have "run G seed N_ROWS = Inr rs'" by (simp add: run_def)
  moreover from B have "length rs' = 10000" by (simp add: N_ROWS_def)
  ultimately have "\<exists>rs. run G seed N_ROWS = Inr rs \<and> length rs = 10000 \<and>
      map Row_ID rs = [1..N_ROWS]"
    using C by blast
  with 1 2 show ?thesis by blast
qed

theorem dataset_has_n_rows_in_order_witness:
  "(\<exists>rs ss. rows scripted 3 ([], []) = Inr (rs, last ss) \<and> length rs = 3 \<and>
      length ss = 4 \<and> ss ! 0 = ([], []) \<and>
      generate_row scripted 1 (ss ! 0) = Inr (rs ! 0, ss ! 1) \<and>
      generate_row scripted 2 (ss ! 1) = Inr (rs ! 1, ss ! 2) \<and>
      generate_row scripted 3 (ss ! 2) = Inr (rs ! 2, ss ! 3) \<and>
      rs ! 0 = bedroom_row \<and> map Row_ID rs = [1, 2, 3]) \<and>
   (\<exists>rs. run scripted 42 N_ROWS = Inr rs \<and> length rs = 10000)"
proof -
  have u: "[1..3] = [1, 2, 3 :: int]" by code_simp
  from dataset_has_n_rows_in_order [OF prng_ok_scripted, of 3 "([], [])" 42] obtain rs ss
    where 1: "rows scripted 3 ([], []) = Inr (rs, last ss)" "length rs = nat 3"
      "length ss = nat 3 + 1" "ss ! 0 = ([], [])"
      "\<forall>k < nat 3. generate_row scripted (1 + int k) (ss ! k) = Inr (rs ! k, ss ! Suc k)"
      "map Row_ID rs = [1..3]"
    and 2: "\<exists>rs. run scripted 42 N_ROWS = Inr rs \<and> length rs = 10000"
    by blast
  have k0: "generate_row scripted 1 (ss ! 0) = Inr (rs ! 0, ss ! 1)"
    using 1(5) [rule_format, of 0] by simp
  have k1: "generate_row scripted 2 (ss ! 1) = Inr (rs ! 1, ss ! 2)"
    using 1(5) [rule_format, of 1] by (simp add: numeral_2_eq_2)
  have k2: "generate_row scripted 3 (ss ! 2) = Inr (rs ! 2, ss ! 3)"
    using 1(5) [rule_format, of 2] by (simp add: numeral_3_eq_3)
  from k0 1(4) scripted_bedroom_run have b: "rs ! 0 = bedroom_row" by simp
  have "\<exists>rs ss. rows scripted 3 ([], []) = Inr (rs, last ss) \<and> length rs = 3 \<and>
      length ss = 4 \<and> ss ! 0 = ([], []) \<and>
      generate_row scripted 1 (ss ! 0) = Inr (rs ! 0, ss ! 1) \<and>
      generate_row scripted 2 (ss ! 1) = Inr (rs ! 1, ss ! 2) \<and>
      generate_row scripted 3 (ss ! 2) = Inr (rs ! 2, ss ! 3) \<and>
      rs ! 0 = bedroom_row \<and> map Row_ID rs = [1, 2, 3]"
    by (rule exI [of _ rs], rule exI [of _ ss]) (insert 1 k0 k1 k2 b u, simp)
  then show ?thesis using 2 by (rule conjI)
qed


































end
